theory Spec2Isabelle
  imports Main "HOL-Library.Product_Lexorder"
begin

text \<open>
  A shallow embedding of the namespace diagnostic engine of the OpenZeppelin extension for
  Visual Studio Code: \<^verbatim>\<open>server/src/diagnostics.ts\<close> and the cursor helpers and the version
  helper of \<^verbatim>\<open>server/src/helpers/slang.ts\<close>. The syntax trees, the cursors and the parser are
  those of the parsing service the engine is built on; the engine's functions are translated
  one by one, each loop as a recursive function and each exception as an error value.
\<close>

section \<open>Strings\<close>

text \<open>
  Source texts are JavaScript strings. They are modelled as \<^typ>\<open>string\<close>, one
  \<^typ>\<open>char\<close> per UTF-16 code unit, for code units below 256; offsets count code units.
\<close>

text \<open>The class \<^verbatim>\<open>\s\<close> of JavaScript regular expressions (also what \<^verbatim>\<open>trim\<close> strips),
  on code units below 256: tab, line feed, vertical tab, form feed, carriage return, space,
  no-break space.\<close>

definition isWhiteSpace :: "char \<Rightarrow> bool" where
  "isWhiteSpace c = (of_char c \<in> {9, 10, 11, 12, 13, 32, 160 :: nat})"

text \<open>The characters that \<^verbatim>\<open>.\<close> does not match, on code units below 256.\<close>

definition isLineTerminator :: "char \<Rightarrow> bool" where
  "isLineTerminator c = (of_char c \<in> {10, 13 :: nat})"

text \<open>\<^verbatim>\<open>String.prototype.trim\<close>.\<close>

definition trim :: "string \<Rightarrow> string" where
  "trim s = rev (dropWhile isWhiteSpace (rev (dropWhile isWhiteSpace s)))"

text \<open>\<^verbatim>\<open>s.startsWith(p)\<close>, and its remainder.\<close>

fun startsWith :: "string \<Rightarrow> string \<Rightarrow> bool" where
  "startsWith s [] = True"
| "startsWith [] (p # ps) = False"
| "startsWith (c # cs) (p # ps) = (c = p \<and> startsWith cs ps)"

fun stripPrefix :: "string \<Rightarrow> string \<Rightarrow> string option" where
  "stripPrefix [] s = Some s"
| "stripPrefix (p # ps) [] = None"
| "stripPrefix (p # ps) (c # cs) = (if c = p then stripPrefix ps cs else None)"

text \<open>\<^verbatim>\<open>text.includes(search)\<close>.\<close>

fun string_includes :: "string \<Rightarrow> string \<Rightarrow> bool" where
  "string_includes [] search = (search = [])"
| "string_includes (c # cs) search = (startsWith (c # cs) search \<or> string_includes cs search)"

text \<open>\<^verbatim>\<open>s.match(/suffix$/)\<close> for a literal suffix: the string ends with it.\<close>

definition endsWith :: "string \<Rightarrow> string \<Rightarrow> bool" where
  "endsWith s suffix = startsWith (rev s) (rev suffix)"

text \<open>\<^verbatim>\<open>s.split(/\s+/)\<close>: the pieces between maximal runs of white space. A run at the start
  or at the end of the string leaves an empty piece there.\<close>

fun splitWs :: "string \<Rightarrow> bool \<Rightarrow> string \<Rightarrow> string list" where
  "splitWs acc inRun [] = [rev acc]"
| "splitWs acc inRun (c # cs) =
     (if isWhiteSpace c then (if inRun then splitWs acc True cs else rev acc # splitWs [] True cs)
      else splitWs (c # acc) False cs)"

definition split_whitespace :: "string \<Rightarrow> string list" where
  "split_whitespace s = splitWs [] False s"

section \<open>Concrete syntax trees and cursors of the parsing service\<close>

datatype TerminalKind =
    EndOfLine
  | MultiLineComment
  | MultiLineNatSpecComment
  | SingleLineComment
  | SingleLineNatSpecComment
  | Whitespace
  | Identifier
  | ImmutableKeyword
  | ConstantKeyword
  | PublicKeyword
  | OtherTerminal string

datatype NonterminalKind =
    SourceUnit
  | ContractDefinition
  | FunctionDefinition
  | StateVariableDefinition
  | StateVariableDefinitionValue
  | Expression
  | StructDefinition
  | VersionExpressionSet
  | OtherNonterminal string

text \<open>
  The typed views of the parsing service (\<^verbatim>\<open>new ContractDefinition(node)\<close>,
  \<^verbatim>\<open>new FunctionDefinition(node)\<close>, \<^verbatim>\<open>new StateVariableDefinition(node)\<close>) expose
  fields of a nonterminal. The model stores, with the node, the fields the engine reads:
  \<^item> of a contract, \<^verbatim>\<open>name.text\<close> and \<^verbatim>\<open>inheritance?.types.items\<close>, each type given by the
    texts of its \<^verbatim>\<open>typeName.items\<close>;
  \<^item> of a function, \<^verbatim>\<open>name.variant.text\<close> and, for each of \<^verbatim>\<open>parameters.parameters.items\<close>,
    \<^verbatim>\<open>typeName.cst.unparse()\<close>;
  \<^item> of a state variable, \<^verbatim>\<open>typeName.cst.unparse()\<close>, the \<^verbatim>\<open>variant\<close> of each of
    \<^verbatim>\<open>attributes.items\<close>, \<^verbatim>\<open>name.text\<close> and whether \<^verbatim>\<open>value\<close> is defined.
  A node without the view of its kind (\<open>NoAst\<close>) is one on which the typed view throws.
\<close>

datatype AttributeVariant =
    TerminalVariant TerminalKind
  | NonterminalVariant NonterminalKind

record ContractDefinitionAst =
  contractName :: string
  inheritance :: "string list list option"

record FunctionDefinitionAst =
  functionName :: string
  parameterTypeNames :: "string list"

record StateVariableDefinitionAst =
  typeName :: string
  attributes :: "AttributeVariant list"
  variableName :: string
  hasValue :: bool

datatype ast =
    NoAst
  | ContractAst ContractDefinitionAst
  | FunctionAst FunctionDefinitionAst
  | StateVariableAst StateVariableDefinitionAst

datatype node =
    TerminalNode TerminalKind string
  | NonterminalNode NonterminalKind ast "node list"

datatype error = AssertionError | AstError | LanguageError

text \<open>\<^verbatim>\<open>node.unparse()\<close>: the texts of the terminals of the subtree, in document order.\<close>

fun unparse :: "node \<Rightarrow> string" where
  "unparse (TerminalNode k t) = t"
| "unparse (NonterminalNode k a cs) = concat (map unparse cs)"

fun isTerminal :: "node \<Rightarrow> bool" where
  "isTerminal (TerminalNode k t) = True"
| "isTerminal (NonterminalNode k a cs) = False"

fun isTerminalWithKind :: "TerminalKind \<Rightarrow> node \<Rightarrow> bool" where
  "isTerminalWithKind kind (TerminalNode k t) = (k = kind)"
| "isTerminalWithKind kind (NonterminalNode k a cs) = False"

fun isNonterminalWithKind :: "NonterminalKind \<Rightarrow> node \<Rightarrow> bool" where
  "isNonterminalWithKind kind (TerminalNode k t) = False"
| "isNonterminalWithKind kind (NonterminalNode k a cs) = (k = kind)"

fun children :: "node \<Rightarrow> node list" where
  "children (TerminalNode k t) = []"
| "children (NonterminalNode k a cs) = cs"

text \<open>
  A cursor visits the nodes of a tree in document order (depth first, a node before its
  children). An \<open>entry\<close> is a node with the UTF-16 offset where its text starts.
\<close>

type_synonym entry = "node \<times> nat"

fun preorder :: "nat \<Rightarrow> node \<Rightarrow> entry list"
  and preorders :: "nat \<Rightarrow> node list \<Rightarrow> entry list" where
  "preorder off (TerminalNode k t) = [(TerminalNode k t, off)]"
| "preorder off (NonterminalNode k a cs) = (NonterminalNode k a cs, off) # preorders off cs"
| "preorders off [] = []"
| "preorders off (c # cs) = preorder off c @ preorders (off + length (unparse c)) cs"

text \<open>
  The cursor of the parsing service moves to the next or the previous node in document order,
  and a spawned cursor is a new cursor rooted at the current node. A cursor never leaves the
  subtree of its root. \<open>passed\<close> holds the nodes already passed, nearest first; \<open>ahead\<close> the
  nodes still to come. A cursor that ran off either end is completed: it sits at its root
  and no longer moves.
\<close>

record Cursor =
  root :: entry
  passed :: "entry list"
  current :: entry
  ahead :: "entry list"
  isCompleted :: bool

definition cursorAt :: "entry \<Rightarrow> Cursor" where
  "cursorAt e = \<lparr>root = e, passed = [], current = e,
     ahead = preorders (snd e) (children (fst e)), isCompleted = False\<rparr>"

text \<open>\<^verbatim>\<open>parseOutput.createTreeCursor()\<close>.\<close>

definition createTreeCursor :: "node \<Rightarrow> Cursor" where
  "createTreeCursor tree = cursorAt (tree, 0)"

text \<open>\<^verbatim>\<open>cursor.spawn()\<close>: a fresh cursor rooted at the current node.\<close>

definition spawn :: "Cursor \<Rightarrow> Cursor" where
  "spawn c = cursorAt (current c)"

text \<open>\<^verbatim>\<open>cursor.node()\<close>.\<close>

definition node :: "Cursor \<Rightarrow> node" where
  "node c = fst (current c)"

text \<open>\<^verbatim>\<open>cursor.textRange\<close>, as the pair of the UTF-16 offsets of its start and end.\<close>

type_synonym TextRange = "nat \<times> nat"

definition textRange :: "Cursor \<Rightarrow> TextRange" where
  "textRange c = (snd (current c), snd (current c) + length (unparse (node c)))"

definition complete :: "Cursor \<Rightarrow> Cursor" where
  "complete c = c\<lparr>passed := [], current := root c,
     ahead := preorders (snd (root c)) (children (fst (root c))), isCompleted := True\<rparr>"

text \<open>The forward search behind \<^verbatim>\<open>goToNextTerminal\<close>, \<^verbatim>\<open>goToNextTerminalWithKind\<close> and
  \<^verbatim>\<open>goToNextNonterminalWithKind\<close>: step to the next node until one satisfies \<open>P\<close>. The
  node the cursor starts on is not tested.\<close>

fun seekNext :: "(node \<Rightarrow> bool) \<Rightarrow> entry list \<Rightarrow> entry \<Rightarrow> entry list
    \<Rightarrow> (entry list \<times> entry \<times> entry list) option" where
  "seekNext P bs cur [] = None"
| "seekNext P bs cur (x # xs) =
     (if P (fst x) then Some (cur # bs, x, xs) else seekNext P (cur # bs) x xs)"

definition goToNextMatching :: "(node \<Rightarrow> bool) \<Rightarrow> Cursor \<Rightarrow> bool \<times> Cursor" where
  "goToNextMatching P c =
     (if isCompleted c then (False, c)
      else case seekNext P (passed c) (current c) (ahead c) of
        None \<Rightarrow> (False, complete c)
      | Some (bs, x, xs) \<Rightarrow> (True, c\<lparr>passed := bs, current := x, ahead := xs\<rparr>))"

definition goToNextTerminal :: "Cursor \<Rightarrow> bool \<times> Cursor" where
  "goToNextTerminal c = goToNextMatching isTerminal c"

definition goToNextTerminalWithKind :: "TerminalKind \<Rightarrow> Cursor \<Rightarrow> bool \<times> Cursor" where
  "goToNextTerminalWithKind kind c = goToNextMatching (isTerminalWithKind kind) c"

definition goToNextNonterminalWithKind :: "NonterminalKind \<Rightarrow> Cursor \<Rightarrow> bool \<times> Cursor" where
  "goToNextNonterminalWithKind kind c = goToNextMatching (isNonterminalWithKind kind) c"

text \<open>\<^verbatim>\<open>cursor.goToPrevious()\<close>: one node back in document order. The helpers that call it
  look only at the terminals they come to.\<close>

definition goToPrevious :: "Cursor \<Rightarrow> bool \<times> Cursor" where
  "goToPrevious c =
     (if isCompleted c then (False, c)
      else case passed c of
        [] \<Rightarrow> (False, complete c)
      | x # xs \<Rightarrow> (True, c\<lparr>passed := xs, current := x, ahead := current c # ahead c\<rparr>))"

text \<open>What is left for a cursor to visit; every loop over a cursor decreases it.\<close>

definition remaining :: "Cursor \<Rightarrow> nat" where
  "remaining c = (if isCompleted c then 0 else Suc (length (ahead c)))"

definition behind :: "Cursor \<Rightarrow> nat" where
  "behind c = (if isCompleted c then 0 else Suc (length (passed c)))"

lemma seekNext_length:
  "seekNext P bs cur xs = Some (bs', x, xs') \<Longrightarrow> length xs' < length xs"
proof (induction xs arbitrary: bs cur)
  case Nil
  then show ?case by simp
next
  case (Cons y ys)
  show ?case
  proof (cases "P (fst y)")
    case True
    with Cons.prems show ?thesis by simp
  next
    case False
    with Cons.prems have "seekNext P (cur # bs) y ys = Some (bs', x, xs')" by simp
    from Cons.IH [OF this] show ?thesis by simp
  qed
qed

lemma goToNextMatching_remaining:
  "goToNextMatching P c = (True, c') \<Longrightarrow> remaining c' < remaining c"
  by (auto simp: goToNextMatching_def remaining_def split: if_splits option.splits
      dest: seekNext_length)

lemma goToNextMatching_failed:
  "goToNextMatching P c = (False, c') \<Longrightarrow> isCompleted c'"
  by (auto simp: goToNextMatching_def complete_def split: if_splits option.splits)

lemma goToPrevious_behind:
  "goToPrevious c = (True, c') \<Longrightarrow> behind c' < behind c"
  by (auto simp: goToPrevious_def behind_def split: if_splits list.splits)

lemma goToNextMatching_fst_remaining:
  "fst (goToNextMatching P c) \<Longrightarrow> remaining (snd (goToNextMatching P c)) < remaining c"
  by (cases "goToNextMatching P c") (auto dest: goToNextMatching_remaining)

lemma goToNextMatching_remaining_le:
  "remaining (snd (goToNextMatching P c)) \<le> remaining c"
proof (cases "goToNextMatching P c")
  case (Pair ok c')
  show ?thesis
  proof (cases ok)
    case True
    with Pair show ?thesis by (auto dest: goToNextMatching_remaining)
  next
    case False
    with Pair have "isCompleted c'" by (auto dest: goToNextMatching_failed)
    with Pair show ?thesis by (simp add: remaining_def)
  qed
qed

lemma goToPrevious_fst_behind:
  "fst (goToPrevious c) \<Longrightarrow> behind (snd (goToPrevious c)) < behind c"
  by (cases "goToPrevious c") (auto dest: goToPrevious_behind)

section \<open>Syntax cursor utilities (helpers/slang.ts)\<close>

fun isTriviaKind :: "TerminalKind \<Rightarrow> bool" where
  "isTriviaKind EndOfLine = True"
| "isTriviaKind MultiLineComment = True"
| "isTriviaKind MultiLineNatSpecComment = True"
| "isTriviaKind SingleLineComment = True"
| "isTriviaKind SingleLineNatSpecComment = True"
| "isTriviaKind Whitespace = True"
| "isTriviaKind _ = False"

fun isTrivia :: "node \<Rightarrow> bool" where
  "isTrivia (TerminalNode k t) = isTriviaKind k"
| "isTrivia (NonterminalNode k a cs) = False"

function goToLastTerminal :: "Cursor \<Rightarrow> Cursor" where
  "goToLastTerminal c =
     (if \<not> fst (goToNextTerminal c) then c
      else let r = goToNextTerminal c in
        if fst r then goToLastTerminal (snd r) else snd r)"
  by pat_completeness auto
termination
  by (relation "measure remaining")
    (auto simp: goToNextTerminal_def goToNextMatching_fst_remaining)

declare goToLastTerminal.simps [simp del]

function goToFirstNonTrivia :: "Cursor \<Rightarrow> bool \<times> Cursor" where
  "goToFirstNonTrivia c =
     (if \<not> fst (goToNextTerminal c) then (False, c)
      else let r = goToNextTerminal c in
        if fst r \<and> isTrivia (node (snd r)) then goToFirstNonTrivia (snd r)
        else (True, snd r))"
  by pat_completeness auto
termination
  by (relation "measure remaining")
    (auto simp: goToNextTerminal_def goToNextMatching_fst_remaining)

declare goToFirstNonTrivia.simps [simp del]

record TriviaTextWithRange =
  triviaText :: string
  triviaTextRange :: TextRange
  triviaKind :: TerminalKind

text \<open>\<^verbatim>\<open>node.type === NodeType.Terminal && kinds.includes(node.kind)\<close>.\<close>

fun isTerminalWithKinds :: "TerminalKind list \<Rightarrow> node \<Rightarrow> bool" where
  "isTerminalWithKinds kinds (TerminalNode k t) = (k \<in> set kinds)"
| "isTerminalWithKinds kinds (NonterminalNode k a cs) = False"

function goToPreviousTerminalWithKinds :: "Cursor \<Rightarrow> TerminalKind list \<Rightarrow> bool \<times> Cursor" where
  "goToPreviousTerminalWithKinds c kinds =
     (let r = goToPrevious c in
      if fst r then
        (if isTerminalWithKinds kinds (node (snd r)) then (True, snd r)
         else goToPreviousTerminalWithKinds (snd r) kinds)
      else (False, snd r))"
  by pat_completeness auto
termination
  by (relation "measure (\<lambda>(c, kinds). behind c)")
    (auto simp: goToPrevious_fst_behind)

declare goToPreviousTerminalWithKinds.simps [simp del]

definition getLastPrecedingTriviaWithKinds ::
    "Cursor \<Rightarrow> TerminalKind list \<Rightarrow> error + TriviaTextWithRange option" where
  "getLastPrecedingTriviaWithKinds c kinds =
     (if \<not> list_all isTriviaKind kinds then Inl AssertionError
      else
        let triviaCursor = spawn c; r1 = goToFirstNonTrivia triviaCursor in
        if fst r1 then
          (let r2 = goToPreviousTerminalWithKinds (snd r1) kinds in
           if fst r2 then
             (case node (snd r2) of
                TerminalNode k t \<Rightarrow>
                  Inr (Some \<lparr>triviaText = t, triviaTextRange = textRange (snd r2),
                             triviaKind = k\<rparr>)
              | NonterminalNode k a cs \<Rightarrow> Inl AssertionError)
           else Inr None)
        else Inr None)"

definition getNatSpec :: "Cursor \<Rightarrow> error + TriviaTextWithRange option" where
  "getNatSpec c =
     getLastPrecedingTriviaWithKinds c [MultiLineNatSpecComment, SingleLineNatSpecComment]"

text \<open>The first loop of \<^verbatim>\<open>getTrimmedRange\<close>:
  \<^verbatim>\<open>while (childCursor.goToNextTerminal() && isTrivia(childCursor.node())) {}\<close>.\<close>

function skipLeadingTrivia :: "Cursor \<Rightarrow> Cursor" where
  "skipLeadingTrivia c =
     (let r = goToNextTerminal c in
      if fst r \<and> isTrivia (node (snd r)) then skipLeadingTrivia (snd r) else snd r)"
  by pat_completeness auto
termination
  by (relation "measure remaining")
    (auto simp: goToNextTerminal_def goToNextMatching_fst_remaining)

declare skipLeadingTrivia.simps [simp del]

text \<open>Its second loop: back from the last terminal to a terminal that is not trivia, whose
  end becomes the end of the range.\<close>

function lastNonTriviaEnd :: "Cursor \<Rightarrow> nat \<Rightarrow> nat" where
  "lastNonTriviaEnd c end0 =
     (let r = goToPrevious c in
      if fst r then
        (if isTerminal (node (snd r)) \<and> \<not> isTrivia (node (snd r))
         then snd (textRange (snd r))
         else lastNonTriviaEnd (snd r) end0)
      else end0)"
  by pat_completeness auto
termination
  by (relation "measure (\<lambda>(c, e). behind c)")
    (auto simp: goToPrevious_fst_behind)

declare lastNonTriviaEnd.simps [simp del]

definition getTrimmedRange :: "Cursor \<Rightarrow> error + TextRange" where
  "getTrimmedRange c =
     (let childCursor = spawn c in
      case node childCursor of
        TerminalNode k t \<Rightarrow> Inl AssertionError
      | NonterminalNode k a cs \<Rightarrow>
          let c1 = skipLeadingTrivia childCursor;
              start = fst (textRange c1);
              c2 = goToLastTerminal c1
          in Inr (start, lastNonTriviaEnd c2 (snd (textRange childCursor))))"

section \<open>Collaborators\<close>

text \<open>A compiler version \<open>(major, minor, patch)\<close>; a \<^verbatim>\<open>Language\<close> of the parsing service is
  determined by its version.\<close>

type_synonym SemVer = "nat \<times> nat \<times> nat"

record ParseOutput =
  isValid :: bool
  tree :: node

type_synonym Position = "nat \<times> nat"

type_synonym Range = "Position \<times> Position"

text \<open>
  What the engine calls and this development does not define, taken as parameters:
  \<^item> \<open>parse v kind text\<close> is \<^verbatim>\<open>new Language(v).parse(kind, text)\<close>;
  \<^item> \<open>inferSolidityVersion\<close> is what \<^verbatim>\<open>await inferSolidityVersion(textDocument, workspaceFolders)\<close>
    returns;
  \<^item> \<open>getNamespacePrefix\<close> is what \<^verbatim>\<open>await getNamespacePrefix(textDocument)\<close> returns;
  \<^item> \<open>getNamespaceId\<close> and \<open>calculateERC7201StorageLocation\<close> are the functions of
    \<^verbatim>\<open>./namespace\<close>;
  \<^item> \<open>positionAt\<close> is \<^verbatim>\<open>textDocument.positionAt\<close>, \<open>getText\<close> is \<^verbatim>\<open>textDocument.getText()\<close>;
  \<^item> \<open>supportedVersions\<close> is \<^verbatim>\<open>Language.supportedVersions()\<close>;
  \<^item> \<open>satisfies v r\<close> tells whether version \<open>v\<close> satisfies the range \<open>r\<close> for the semver
    library (no version satisfies a range the library cannot read).
\<close>

record Env =
  parse :: "SemVer \<Rightarrow> NonterminalKind \<Rightarrow> string \<Rightarrow> ParseOutput"
  inferSolidityVersion :: SemVer
  getNamespacePrefix :: string
  getNamespaceId :: "string \<Rightarrow> string \<Rightarrow> string"
  calculateERC7201StorageLocation :: "string \<Rightarrow> string"
  positionAt :: "nat \<Rightarrow> Position"
  getText :: string
  supportedVersions :: "SemVer list"
  satisfies :: "SemVer \<Rightarrow> string \<Rightarrow> bool"

definition slangToVSCodeRange :: "Env \<Rightarrow> TextRange \<Rightarrow> Range" where
  "slangToVSCodeRange doc slangRange = (positionAt doc (fst slangRange), positionAt doc (snd slangRange))"

section \<open>Diagnostics\<close>

datatype DiagnosticSeverity = Error | Warning | Information | Hint

record PublicGetter =
  getterTypeName :: string

record NamespaceableVariable =
  content :: string
  varName :: string
  varRange :: Range
  publicGetter :: "PublicGetter option"

record NamespaceableContract =
  ncName :: string
  variables :: "NamespaceableVariable list"

datatype DiagnosticData =
    NoData
  | Replacement string
  | ContractData NamespaceableContract

record Diagnostic =
  diagRange :: Range
  message :: string
  details :: string
  severity :: DiagnosticSeverity
  code :: string
  data :: DiagnosticData

text \<open>Modelled from the spec: \<^verbatim>\<open>addDiagnostic\<close> of \<^verbatim>\<open>./server\<close> is not among the sources.
  The spec has the sink accumulate the records handed to it, \<open>{range, message, explanation,
  severity, code, payload}\<close>, in a list that is append-only.\<close>

definition addDiagnostic :: "Diagnostic list \<Rightarrow> Range \<Rightarrow> string \<Rightarrow> string
    \<Rightarrow> DiagnosticSeverity \<Rightarrow> string \<Rightarrow> DiagnosticData \<Rightarrow> Diagnostic list" where
  "addDiagnostic diagnostics r msg det sev cd dat =
     diagnostics @ [\<lparr>diagRange = r, message = msg, details = det, severity = sev,
                      code = cd, data = dat\<rparr>]"

definition VARIABLE_CAN_BE_NAMESPACED :: string where
  "VARIABLE_CAN_BE_NAMESPACED = ''VariableCanBeNamespaced''"

definition CONTRACT_CAN_BE_NAMESPACED :: string where
  "CONTRACT_CAN_BE_NAMESPACED = ''ContractCanBeNamespaced''"

definition NAMESPACE_ID_MISMATCH :: string where
  "NAMESPACE_ID_MISMATCH = ''NamespaceIdMismatch''"

definition NAMESPACE_ID_MISMATCH_HASH_COMMENT :: string where
  "NAMESPACE_ID_MISMATCH_HASH_COMMENT = ''NamespaceIdMismatchHashComment''"

definition NAMESPACE_HASH_MISMATCH :: string where
  "NAMESPACE_HASH_MISMATCH = ''NamespaceHashMismatch''"

definition NAMESPACE_STANDALONE_HASH_MISMATCH :: string where
  "NAMESPACE_STANDALONE_HASH_MISMATCH = ''NamespaceStandaloneHashMismatch''"

definition VARIABLE_HAS_INITIAL_VALUE :: string where
  "VARIABLE_HAS_INITIAL_VALUE = ''VariableHasInitialValue''"

definition MULTIPLE_NAMESPACES :: string where
  "MULTIPLE_NAMESPACES = ''MultipleNamespaces''"

definition DUPLICATE_NAMESPACE_ID :: string where
  "DUPLICATE_NAMESPACE_ID = ''DuplicateNamespaceId''"

section \<open>Typed views\<close>

fun newContractDefinition :: "node \<Rightarrow> error + ContractDefinitionAst" where
  "newContractDefinition (NonterminalNode ContractDefinition (ContractAst a) cs) = Inr a"
| "newContractDefinition _ = Inl AstError"

fun newFunctionDefinition :: "node \<Rightarrow> error + FunctionDefinitionAst" where
  "newFunctionDefinition (NonterminalNode FunctionDefinition (FunctionAst a) cs) = Inr a"
| "newFunctionDefinition _ = Inl AstError"

fun newStateVariableDefinition :: "node \<Rightarrow> error + StateVariableDefinitionAst" where
  "newStateVariableDefinition (NonterminalNode StateVariableDefinition (StateVariableAst a) cs) = Inr a"
| "newStateVariableDefinition _ = Inl AstError"

section \<open>The patterns matched against comments\<close>

text \<open>\<^verbatim>\<open>/@custom:storage-location erc7201:(\S+)/\<close>: the leftmost place where the tag is followed
  by a character that is not white space; the capture runs as far as such characters go.\<close>

definition storageLocationTag :: string where
  "storageLocationTag = ''@custom:storage-location erc7201:''"

fun matchSingleLineAt :: "string \<Rightarrow> string option" where
  "matchSingleLineAt s =
     (case stripPrefix storageLocationTag s of
        None \<Rightarrow> None
      | Some rest \<Rightarrow>
          (if takeWhile (\<lambda>c. \<not> isWhiteSpace c) rest = [] then None
           else Some (takeWhile (\<lambda>c. \<not> isWhiteSpace c) rest)))"

fun matchSingleLine :: "string \<Rightarrow> string option" where
  "matchSingleLine [] = None"
| "matchSingleLine (c # cs) =
     (case matchSingleLineAt (c # cs) of Some m \<Rightarrow> Some m | None \<Rightarrow> matchSingleLine cs)"

text \<open>\<^verbatim>\<open>/@custom:storage-location erc7201:(\S+)(?=\s|\*\/)/\<close>: as above, but the capture must
  be followed by white space or by \<^verbatim>\<open>*/\<close>; the longest such capture is taken.\<close>

fun lookahead :: "string \<Rightarrow> bool" where
  "lookahead [] = False"
| "lookahead (c # cs) = (isWhiteSpace c \<or> startsWith (c # cs) ''*/'')"

fun longestCapture :: "nat \<Rightarrow> string \<Rightarrow> string option" where
  "longestCapture 0 rest = None"
| "longestCapture (Suc k) rest =
     (if lookahead (drop (Suc k) rest) then Some (take (Suc k) rest)
      else longestCapture k rest)"

fun matchMultiLineAt :: "string \<Rightarrow> string option" where
  "matchMultiLineAt s =
     (case stripPrefix storageLocationTag s of
        None \<Rightarrow> None
      | Some rest \<Rightarrow> longestCapture (length (takeWhile (\<lambda>c. \<not> isWhiteSpace c) rest)) rest)"

fun matchMultiLine :: "string \<Rightarrow> string option" where
  "matchMultiLine [] = None"
| "matchMultiLine (c # cs) =
     (case matchMultiLineAt (c # cs) of Some m \<Rightarrow> Some m | None \<Rightarrow> matchMultiLine cs)"

text \<open>
  \<^verbatim>\<open>/keccak256\(abi\.encode\(uint256\(keccak256\("(.*)"\)\) *- *1\)\) *& *~bytes32\(uint256\(0xff\)\)/\<close>:
  the leftmost place where the formula opens; the capture is the longest run without a line
  terminator after which the rest of the formula follows.
\<close>

definition formulaHead :: string where
  \<open>formulaHead = ''keccak256(abi.encode(uint256(keccak256("''\<close>

definition skipSpaces :: "string \<Rightarrow> string" where
  "skipSpaces s = dropWhile (\<lambda>c. c = CHR '' '') s"

definition formulaTail :: "string \<Rightarrow> bool" where
  \<open>formulaTail s =
     (case stripPrefix ''"))'' s of
        None \<Rightarrow> False
      | Some s1 \<Rightarrow>
     (case stripPrefix ''-'' (skipSpaces s1) of
        None \<Rightarrow> False
      | Some s2 \<Rightarrow>
     (case stripPrefix ''1))'' (skipSpaces s2) of
        None \<Rightarrow> False
      | Some s3 \<Rightarrow>
     (case stripPrefix ''&'' (skipSpaces s3) of
        None \<Rightarrow> False
      | Some s4 \<Rightarrow> startsWith (skipSpaces s4) ''~bytes32(uint256(0xff))''))))\<close>

fun longestFormulaCapture :: "nat \<Rightarrow> string \<Rightarrow> string option" where
  "longestFormulaCapture 0 rest = (if formulaTail rest then Some [] else None)"
| "longestFormulaCapture (Suc k) rest =
     (if formulaTail (drop (Suc k) rest) then Some (take (Suc k) rest)
      else longestFormulaCapture k rest)"

fun matchFormulaAt :: "string \<Rightarrow> string option" where
  "matchFormulaAt s =
     (case stripPrefix formulaHead s of
        None \<Rightarrow> None
      | Some rest \<Rightarrow>
          longestFormulaCapture (length (takeWhile (\<lambda>c. \<not> isLineTerminator c) rest)) rest)"

fun matchFormula :: "string \<Rightarrow> string option" where
  "matchFormula [] = None"
| "matchFormula (c # cs) =
     (case matchFormulaAt (c # cs) of Some m \<Rightarrow> Some m | None \<Rightarrow> matchFormula cs)"

section \<open>The namespace diagnostic engine (diagnostics.ts)\<close>

definition getExpectedNamespaceId :: "Env \<Rightarrow> string \<Rightarrow> ContractDefinitionAst \<Rightarrow> string" where
  "getExpectedNamespaceId E namespacePrefix contractDef =
     getNamespaceId E namespacePrefix (contractName contractDef)"

subsection \<open>inferUpgradeable\<close>

text \<open>\<^verbatim>\<open>contractDef.inheritance?.types.items.some(type => type.typeName.items.some(item =>
  item.text === name))\<close>; \<open>undefined\<close>, which the caller treats as false, without an inheritance
  list.\<close>

definition inherits :: "ContractDefinitionAst \<Rightarrow> string \<Rightarrow> bool" where
  "inherits contractDef name =
     (case inheritance contractDef of
        None \<Rightarrow> False
      | Some types \<Rightarrow> list_ex (\<lambda>type. list_ex (\<lambda>item. item = name) type) types)"

definition isAuthorizeUpgrade :: "FunctionDefinitionAst \<Rightarrow> bool" where
  "isAuthorizeUpgrade functionDef =
     (functionName functionDef = ''_authorizeUpgrade''
      \<and> length (parameterTypeNames functionDef) = 1
      \<and> parameterTypeNames functionDef ! 0 = ''address'')"

function hasAuthorizeUpgrade :: "Cursor \<Rightarrow> error + bool" where
  "hasAuthorizeUpgrade functionCursor =
     (let r = goToNextNonterminalWithKind FunctionDefinition functionCursor in
      if fst r then
        (if isTerminal (node (snd r)) then Inl AssertionError
         else case newFunctionDefinition (node (snd r)) of
           Inl e \<Rightarrow> Inl e
         | Inr functionDef \<Rightarrow>
             if isAuthorizeUpgrade functionDef then Inr True
             else hasAuthorizeUpgrade (snd r))
      else Inr False)"
  by pat_completeness auto
termination
  by (relation "measure remaining")
    (auto simp: goToNextNonterminalWithKind_def goToNextMatching_fst_remaining)

declare hasAuthorizeUpgrade.simps [simp del]

definition hasUpgradesAnnotation :: "Cursor \<Rightarrow> error + bool" where
  "hasUpgradesAnnotation c =
     (case getNatSpec c of
        Inl e \<Rightarrow> Inl e
      | Inr None \<Rightarrow> Inr False
      | Inr (Some natSpec) \<Rightarrow>
          (let natSpecTokens = split_whitespace (triviaText natSpec) in
           Inr (''@custom:oz-upgrades'' \<in> set natSpecTokens
                \<or> ''@custom:oz-upgrades-from'' \<in> set natSpecTokens)))"

definition inferUpgradeable :: "Cursor \<Rightarrow> ContractDefinitionAst \<Rightarrow> error + bool" where
  "inferUpgradeable c contractDef =
     (let hasInitializable = inherits contractDef ''Initializable'';
          hasUUPSUpgradeable = inherits contractDef ''UUPSUpgradeable''
      in
      if hasInitializable \<or> hasUUPSUpgradeable then Inr True
      else case hasAuthorizeUpgrade (spawn c) of
        Inl e \<Rightarrow> Inl e
      | Inr True \<Rightarrow> Inr True
      | Inr False \<Rightarrow> hasUpgradesAnnotation c)"

subsection \<open>validateNamespaceableContract\<close>

definition validateNamespaceableContract ::
    "Env \<Rightarrow> Cursor \<Rightarrow> Diagnostic list \<Rightarrow> NamespaceableContract \<Rightarrow> Diagnostic list" where
  "validateNamespaceableContract E c diagnostics namespaceableContract =
     (if length (variables namespaceableContract) > 0 then
        let contractChildCursor = snd (goToNextTerminalWithKind Identifier (spawn c));
            identifierStart = fst (textRange contractChildCursor);
            contractDefEnd = snd (textRange c)
        in addDiagnostic diagnostics
             (slangToVSCodeRange E (identifierStart, contractDefEnd))
             ''Contract can be namespaced.''
             ''If this contract is an upgradeable contract, consider moving its variables to namespaced storage.''
             Hint
             CONTRACT_CAN_BE_NAMESPACED
             (ContractData namespaceableContract)
      else diagnostics)"

subsection \<open>validateNamespaceableVariables\<close>

text \<open>The loop over the attributes: its state is \<open>ignoreVariable\<close>, \<open>replacement\<close>,
  \<open>getter\<close>.\<close>

fun attributeLoop :: "StateVariableDefinitionAst \<Rightarrow> AttributeVariant list
    \<Rightarrow> bool \<times> string \<times> PublicGetter option \<Rightarrow> bool \<times> string \<times> PublicGetter option" where
  "attributeLoop stateVar [] st = st"
| "attributeLoop stateVar (attribute # rest) (ignoreVariable, replacement, getter) =
     (if attribute = TerminalVariant ImmutableKeyword \<or> attribute = TerminalVariant ConstantKeyword
      then attributeLoop stateVar rest (True, replacement, getter)
      else attributeLoop stateVar rest
        (ignoreVariable,
         typeName stateVar @ '' '' @ variableName stateVar @ '';'',
         if attribute = TerminalVariant PublicKeyword
         then Some \<lparr>getterTypeName = typeName stateVar\<rparr> else getter))"

text \<open>One turn of the loop, with the cursor on a state variable definition.\<close>

definition validateNamespaceableVariable :: "Env \<Rightarrow> Cursor \<Rightarrow> bool
    \<Rightarrow> Diagnostic list \<times> NamespaceableContract
    \<Rightarrow> error + (Diagnostic list \<times> NamespaceableContract)" where
  "validateNamespaceableVariable E childCursor skipDiagnostic st =
     (let diagnostics = fst st; namespaceableContract = snd st; cursorNode = node childCursor in
      if isTerminal cursorNode then Inl AssertionError
      else case getTrimmedRange childCursor of
        Inl e \<Rightarrow> Inl e
      | Inr trimmedRange \<Rightarrow>
          let variableText = trim (unparse cursorNode);
              parseVar = parse E (inferSolidityVersion E) StateVariableDefinition variableText
          in (case newStateVariableDefinition (tree parseVar) of
            Inl e \<Rightarrow> Inl e
          | Inr stateVar \<Rightarrow>
              let r = attributeLoop stateVar (attributes stateVar) (False, variableText, None);
                  ignoreVariable = fst r; replacement = fst (snd r); getter = snd (snd r)
              in
              if ignoreVariable then Inr (diagnostics, namespaceableContract)
              else if hasValue stateVar then
                (if \<not> skipDiagnostic then
                   Inr ((addDiagnostic diagnostics
                          (slangToVSCodeRange E trimmedRange)
                          ''Variable has initial value''
                          ''If this contract is an upgradeable contract, consider moving this variable to namespaced storage and setting it in an initializer.''
                          Warning
                          VARIABLE_HAS_INITIAL_VALUE
                          NoData),
                        namespaceableContract)
                 else Inr (diagnostics, namespaceableContract))
              else
                (let diagnostics' =
                   (if \<not> skipDiagnostic then
                      addDiagnostic diagnostics
                        (slangToVSCodeRange E trimmedRange)
                        ''Variable can be namespaced.''
                        ''If this contract is an upgradeable contract, consider moving this variable to namespaced storage.''
                        Information
                        VARIABLE_CAN_BE_NAMESPACED
                        NoData
                    else diagnostics);
                   pushed = \<lparr>content = replacement, varName = variableName stateVar,
                             varRange = slangToVSCodeRange E trimmedRange,
                             publicGetter = getter\<rparr>
                 in Inr (diagnostics',
                         namespaceableContract\<lparr>variables :=
                           variables namespaceableContract @ [pushed]\<rparr>))))"

function validateNamespaceableVariablesLoop :: "Env \<Rightarrow> Cursor \<Rightarrow> bool
    \<Rightarrow> Diagnostic list \<times> NamespaceableContract
    \<Rightarrow> error + (Diagnostic list \<times> NamespaceableContract)" where
  "validateNamespaceableVariablesLoop E childCursor skipDiagnostic st =
     (let r = goToNextNonterminalWithKind StateVariableDefinition childCursor in
      if fst r then
        (case validateNamespaceableVariable E (snd r) skipDiagnostic st of
           Inl e \<Rightarrow> Inl e
         | Inr st' \<Rightarrow> validateNamespaceableVariablesLoop E (snd r) skipDiagnostic st')
      else Inr st)"
  by pat_completeness auto
termination
  by (relation "measure (\<lambda>(E, c, skip, st). remaining c)")
    (auto simp: goToNextNonterminalWithKind_def goToNextMatching_fst_remaining)

declare validateNamespaceableVariablesLoop.simps [simp del]

definition validateNamespaceableVariables :: "Env \<Rightarrow> Cursor \<Rightarrow> Diagnostic list
    \<Rightarrow> NamespaceableContract \<Rightarrow> bool \<Rightarrow> error + (Diagnostic list \<times> NamespaceableContract)" where
  "validateNamespaceableVariables E c diagnostics namespaceableContract skipDiagnostic =
     validateNamespaceableVariablesLoop E (spawn c) skipDiagnostic
       (diagnostics, namespaceableContract)"

subsection \<open>validateNamespaceCommentAndHash\<close>

text \<open>The check of the comment: it yields \<open>expectedHashFromComment\<close>,
  \<open>commentHasUnexpectedNamespace\<close> and the diagnostics.\<close>

definition checkFormulaComment :: "Env \<Rightarrow> string \<Rightarrow> TriviaTextWithRange option
    \<Rightarrow> Diagnostic list \<Rightarrow> string option \<times> bool \<times> Diagnostic list" where
  \<open>checkFormulaComment E expectedNamespaceId comment diagnostics =
     (case comment of
        None \<Rightarrow> (None, False, diagnostics)
      | Some cm \<Rightarrow>
          (case matchFormula (triviaText cm) of
             None \<Rightarrow> (None, False, diagnostics)
           | Some m \<Rightarrow>
               (Some (calculateERC7201StorageLocation E m),
                m \<noteq> expectedNamespaceId,
                if m \<noteq> expectedNamespaceId then
                  addDiagnostic diagnostics
                    (slangToVSCodeRange E (triviaTextRange cm))
                    ''Comment does not match namespace id''
                    (''Expected namespace id `'' @ expectedNamespaceId @ ''`'')
                    Warning
                    NAMESPACE_ID_MISMATCH_HASH_COMMENT
                    (Replacement (''// keccak256(abi.encode(uint256(keccak256("'' @ expectedNamespaceId
                       @ ''")) - 1)) & ~bytes32(uint256(0xff))''))
                else diagnostics)))\<close>

text \<open>The two checks of the constant, with the cursor on the node taken for it.\<close>

definition checkHashes :: "Env \<Rightarrow> string \<Rightarrow> Cursor \<Rightarrow> string \<Rightarrow> string option \<Rightarrow> bool
    \<Rightarrow> Diagnostic list \<Rightarrow> error + Diagnostic list" where
  \<open>checkHashes E expectedNamespaceId spawnedCursor text expectedHashFromComment
      commentHasUnexpectedNamespace diagnostics =
     (let expectedHashFromNamespace = calculateERC7201StorageLocation E expectedNamespaceId;
          first =
            (case expectedHashFromComment of
               None \<Rightarrow> Inr diagnostics
             | Some h \<Rightarrow>
                 (if \<not> string_includes text h then
                    (case getTrimmedRange spawnedCursor of
                       Inl e \<Rightarrow> Inl e
                     | Inr r \<Rightarrow>
                         Inr (addDiagnostic diagnostics
                                (slangToVSCodeRange E r)
                                ''ERC7201 storage location hash does not match comment''
                                ''Hash does not match formula in comment''
                                Warning
                                NAMESPACE_HASH_MISMATCH
                                (Replacement h)))
                  else Inr diagnostics))
      in case first of
        Inl e \<Rightarrow> Inl e
      | Inr diagnostics1 \<Rightarrow>
          (if \<not> commentHasUnexpectedNamespace
              \<and> Some expectedHashFromNamespace \<noteq> expectedHashFromComment
              \<and> \<not> string_includes text expectedHashFromNamespace
           then
             (case getTrimmedRange spawnedCursor of
                Inl e \<Rightarrow> Inl e
              | Inr r \<Rightarrow>
                  Inr (addDiagnostic diagnostics1
                         (slangToVSCodeRange E r)
                         ''ERC7201 storage location hash does not match expected namespace id''
                         (''Expected hash to be based on `'' @ expectedNamespaceId @ ''`'')
                         Warning
                         NAMESPACE_STANDALONE_HASH_MISMATCH
                         (Replacement expectedHashFromNamespace)))
           else Inr diagnostics1))\<close>

definition isStorageLocationName :: "string \<Rightarrow> bool" where
  "isStorageLocationName name =
     (endsWith name ''_STORAGE_LOCATION'' \<or> endsWith name ''StorageLocation'')"

text \<open>One turn of the loop, with the cursor on a state variable definition. The turn moves
  the cursor of the loop when the name of the variable ends as a storage location's.\<close>

definition validateCommentAndHashOfVariable :: "Env \<Rightarrow> string \<Rightarrow> Cursor \<Rightarrow> Diagnostic list
    \<Rightarrow> error + (Cursor \<times> Diagnostic list)" where
  "validateCommentAndHashOfVariable E expectedNamespaceId spawnedCursor diagnostics =
     (case getLastPrecedingTriviaWithKinds spawnedCursor [SingleLineComment, MultiLineComment] of
        Inl e \<Rightarrow> Inl e
      | Inr comment \<Rightarrow>
          (let r = checkFormulaComment E expectedNamespaceId comment diagnostics;
               expectedHashFromComment = fst r;
               commentHasUnexpectedNamespace = fst (snd r);
               diagnostics1 = snd (snd r);
               stateVarDefNode = node spawnedCursor
           in
           if isTerminal stateVarDefNode then Inl AssertionError
           else
             (case newStateVariableDefinition stateVarDefNode of
                Inl e \<Rightarrow> Inl e
              | Inr stateVariableDefinition \<Rightarrow>
                  (if isStorageLocationName (variableName stateVariableDefinition) then
                     (let c1 = snd (goToNextNonterminalWithKind StateVariableDefinitionValue
                                      spawnedCursor);
                          c2 = snd (goToNextNonterminalWithKind Expression c1);
                          constantNode = node c2
                      in
                      if isTerminal constantNode then Inr (c2, diagnostics1)
                      else
                        (case checkHashes E expectedNamespaceId c2 (unparse constantNode)
                                expectedHashFromComment commentHasUnexpectedNamespace diagnostics1 of
                           Inl e \<Rightarrow> Inl e
                         | Inr diagnostics2 \<Rightarrow> Inr (c2, diagnostics2)))
                   else Inr (spawnedCursor, diagnostics1)))))"

lemma validateCommentAndHashOfVariable_remaining:
  assumes "validateCommentAndHashOfVariable E i c ds = Inr (c', ds')"
  shows "remaining c' \<le> remaining c"
proof -
  let ?c1 = "snd (goToNextNonterminalWithKind StateVariableDefinitionValue c)"
  let ?c2 = "snd (goToNextNonterminalWithKind Expression ?c1)"
  have "remaining ?c2 \<le> remaining ?c1" "remaining ?c1 \<le> remaining c"
    by (simp_all add: goToNextNonterminalWithKind_def goToNextMatching_remaining_le)
  then have "remaining ?c2 \<le> remaining c" by simp
  moreover from assms have "c' = c \<or> c' = ?c2"
    by (auto simp: validateCommentAndHashOfVariable_def Let_def
        split: sum.splits if_splits)
  ultimately show ?thesis by auto
qed

function validateNamespaceCommentAndHashLoop :: "Env \<Rightarrow> string \<Rightarrow> Cursor \<Rightarrow> Diagnostic list
    \<Rightarrow> error + Diagnostic list" where
  "validateNamespaceCommentAndHashLoop E expectedNamespaceId spawnedCursor diagnostics =
     (let r = goToNextNonterminalWithKind StateVariableDefinition spawnedCursor in
      if fst r then
        (case validateCommentAndHashOfVariable E expectedNamespaceId (snd r) diagnostics of
           Inl e \<Rightarrow> Inl e
         | Inr (c', diagnostics') \<Rightarrow>
             validateNamespaceCommentAndHashLoop E expectedNamespaceId c' diagnostics')
      else Inr diagnostics)"
  by pat_completeness auto
termination
proof (relation "measure (\<lambda>(E, i, c, ds). remaining c)")
  show "wf (measure (\<lambda>(E, i, c, ds). remaining c))" by simp
next
  fix E :: Env and i c ds r x c' ds'
  assume r: "r = goToNextNonterminalWithKind StateVariableDefinition c" and ok: "fst r"
    and step: "validateCommentAndHashOfVariable E i (snd r) ds = Inr x" and x: "(c', ds') = x"
  from r ok have "remaining (snd r) < remaining c"
    by (simp add: goToNextNonterminalWithKind_def goToNextMatching_fst_remaining)
  moreover from step x have "remaining c' \<le> remaining (snd r)"
    by (auto dest: validateCommentAndHashOfVariable_remaining)
  ultimately show "((E, i, c', ds'), (E, i, c, ds)) \<in> measure (\<lambda>(E, i, c, ds). remaining c)"
    by simp
qed

declare validateNamespaceCommentAndHashLoop.simps [simp del]

definition validateNamespaceCommentAndHash :: "Env \<Rightarrow> string \<Rightarrow> Cursor \<Rightarrow> Diagnostic list
    \<Rightarrow> error + Diagnostic list" where
  "validateNamespaceCommentAndHash E expectedNamespaceId c diagnostics =
     validateNamespaceCommentAndHashLoop E expectedNamespaceId (spawn c) diagnostics"

subsection \<open>validateNamespaceStructAnnotation\<close>

record NamespaceIdAndRange =
  namespaceId :: string
  nsTextRange :: TextRange

text \<open>One turn of the loop, with the cursor on a struct definition; its state is
  \<open>foundNamespaceIds\<close> and the diagnostics.\<close>

definition validateStructAnnotation :: "Env \<Rightarrow> ContractDefinitionAst \<Rightarrow> Cursor
    \<Rightarrow> NamespaceIdAndRange list \<times> Diagnostic list
    \<Rightarrow> error + (NamespaceIdAndRange list \<times> Diagnostic list)" where
  "validateStructAnnotation E contractDef structCursor st =
     (let foundNamespaceIds = fst st; diagnostics = snd st in
      if isTerminal (node structCursor) then Inl AssertionError
      else
        (case getNatSpec structCursor of
           Inl e \<Rightarrow> Inl e
         | Inr None \<Rightarrow> Inr st
         | Inr (Some natSpec) \<Rightarrow>
             (if \<not> (triviaKind natSpec = SingleLineNatSpecComment
                     \<or> triviaKind natSpec = MultiLineNatSpecComment)
              then Inl AssertionError
              else
                (case (if triviaKind natSpec = SingleLineNatSpecComment
                       then matchSingleLine (triviaText natSpec)
                       else matchMultiLine (triviaText natSpec)) of
                   None \<Rightarrow> Inr st
                 | Some m \<Rightarrow>
                     (let found = foundNamespaceIds @
                            [\<lparr>namespaceId = m, nsTextRange = triviaTextRange natSpec\<rparr>];
                          namespacePrefix = getNamespacePrefix E;
                          expectedNamespaceId = getExpectedNamespaceId E namespacePrefix contractDef
                      in
                      if m \<noteq> expectedNamespaceId then
                        Inr (found,
                             addDiagnostic diagnostics
                               (slangToVSCodeRange E (triviaTextRange natSpec))
                               ''Namespace id does not match contract name''
                               (''Namepace id does not match prefix `'' @ namespacePrefix
                                  @ ''` and contract name `'' @ contractName contractDef @ ''`'')
                               Information
                               NAMESPACE_ID_MISMATCH
                               (Replacement (''/// @custom:storage-location erc7201:''
                                  @ expectedNamespaceId)))
                      else Inr (found, diagnostics))))))"

function validateStructAnnotationsLoop :: "Env \<Rightarrow> ContractDefinitionAst \<Rightarrow> Cursor
    \<Rightarrow> NamespaceIdAndRange list \<times> Diagnostic list
    \<Rightarrow> error + (NamespaceIdAndRange list \<times> Diagnostic list)" where
  "validateStructAnnotationsLoop E contractDef structCursor st =
     (let r = goToNextNonterminalWithKind StructDefinition structCursor in
      if fst r then
        (case validateStructAnnotation E contractDef (snd r) st of
           Inl e \<Rightarrow> Inl e
         | Inr st' \<Rightarrow> validateStructAnnotationsLoop E contractDef (snd r) st')
      else Inr st)"
  by pat_completeness auto
termination
  by (relation "measure (\<lambda>(E, cd, c, st). remaining c)")
    (auto simp: goToNextNonterminalWithKind_def goToNextMatching_fst_remaining)

declare validateStructAnnotationsLoop.simps [simp del]

text \<open>\<^verbatim>\<open>self.findIndex(p)\<close>: the index of the first element that satisfies \<open>p\<close>, or \<open>-1\<close>.\<close>

fun findIndex :: "('a \<Rightarrow> bool) \<Rightarrow> 'a list \<Rightarrow> int" where
  "findIndex p [] = -1"
| "findIndex p (x # xs) =
     (if p x then 0 else (let i = findIndex p xs in if i = -1 then -1 else i + 1))"

text \<open>\<^verbatim>\<open>foundNamespaceIds.filter((value, index, self) => self.findIndex(t => t.namespaceId ===
  value.namespaceId) !== index)\<close>.\<close>

definition duplicateNamespaceIds :: "NamespaceIdAndRange list \<Rightarrow> NamespaceIdAndRange list" where
  "duplicateNamespaceIds self =
     map snd (filter
       (\<lambda>(index, value). findIndex (\<lambda>t. namespaceId t = namespaceId value) self \<noteq> int index)
       (enumerate 0 self))"

definition duplicateDiagnostic :: "Env \<Rightarrow> Diagnostic list \<Rightarrow> NamespaceIdAndRange \<Rightarrow> Diagnostic list" where
  "duplicateDiagnostic E diagnostics ns =
     addDiagnostic diagnostics
       (slangToVSCodeRange E (nsTextRange ns))
       ''Duplicate namespaces''
       ''Namespace ids must be unique''
       Error
       DUPLICATE_NAMESPACE_ID
       NoData"

definition multipleDiagnostic :: "Env \<Rightarrow> Diagnostic list \<Rightarrow> NamespaceIdAndRange \<Rightarrow> Diagnostic list" where
  "multipleDiagnostic E diagnostics ns =
     addDiagnostic diagnostics
       (slangToVSCodeRange E (nsTextRange ns))
       ''Multiple namespaces''
       ''Only one namespace per contract is recommended''
       Warning
       MULTIPLE_NAMESPACES
       NoData"

text \<open>What follows the loop: the diagnostics for duplicate or multiple namespaces.\<close>

definition reportMultipleNamespaces :: "Env \<Rightarrow> NamespaceIdAndRange list \<Rightarrow> Diagnostic list
    \<Rightarrow> Diagnostic list" where
  "reportMultipleNamespaces E foundNamespaceIds diagnostics =
     (if length foundNamespaceIds > 1 then
        (if length (duplicateNamespaceIds foundNamespaceIds) > 0
         then foldl (duplicateDiagnostic E) diagnostics (duplicateNamespaceIds foundNamespaceIds)
         else foldl (multipleDiagnostic E) diagnostics foundNamespaceIds)
      else diagnostics)"

definition validateNamespaceStructAnnotation :: "Env \<Rightarrow> Cursor \<Rightarrow> ContractDefinitionAst
    \<Rightarrow> Diagnostic list \<Rightarrow> error + (NamespaceIdAndRange option \<times> Diagnostic list)" where
  "validateNamespaceStructAnnotation E c contractDef diagnostics =
     (case validateStructAnnotationsLoop E contractDef (spawn c) ([], diagnostics) of
        Inl e \<Rightarrow> Inl e
      | Inr (foundNamespaceIds, diagnostics1) \<Rightarrow>
          Inr (if length foundNamespaceIds = 1 then Some (foundNamespaceIds ! 0) else None,
               reportMultipleNamespaces E foundNamespaceIds diagnostics1))"

subsection \<open>validateNamespaces\<close>

text \<open>One turn of the loop, with the cursor on a contract definition. The typed view of the
  contract reads its fields when they are first used, which is after the contract has been
  found valid.\<close>

definition validateContract :: "Env \<Rightarrow> SemVer \<Rightarrow> Cursor \<Rightarrow> Diagnostic list
    \<Rightarrow> error + Diagnostic list" where
  "validateContract E language c diagnostics =
     (let cursorNode = node c in
      if isTerminal cursorNode then Inl AssertionError
      else
        (let parseContract = parse E language ContractDefinition (unparse cursorNode) in
         if \<not> isValid parseContract then Inr diagnostics
         else
           (case newContractDefinition cursorNode of
              Inl e \<Rightarrow> Inl e
            | Inr contractDef \<Rightarrow>
                (let namespaceableContract = \<lparr>ncName = contractName contractDef, variables = []\<rparr> in
                 case inferUpgradeable c contractDef of
                   Inl e \<Rightarrow> Inl e
                 | Inr inferredUpgradeable \<Rightarrow>
                     (case (if inferredUpgradeable then
                              (case validateNamespaceStructAnnotation E c contractDef diagnostics of
                                 Inl e \<Rightarrow> Inl e
                               | Inr (foundSingleNamespace, diagnostics1) \<Rightarrow>
                                   (case foundSingleNamespace of
                                      None \<Rightarrow> Inr diagnostics1
                                    | Some ns \<Rightarrow>
                                        validateNamespaceCommentAndHash E (namespaceId ns) c
                                          diagnostics1))
                            else Inr diagnostics) of
                        Inl e \<Rightarrow> Inl e
                      | Inr diagnostics2 \<Rightarrow>
                          (case validateNamespaceableVariables E c diagnostics2
                                  namespaceableContract (\<not> inferredUpgradeable) of
                             Inl e \<Rightarrow> Inl e
                           | Inr (diagnostics3, namespaceableContract') \<Rightarrow>
                               Inr (validateNamespaceableContract E c diagnostics3
                                      namespaceableContract')))))))"

function validateNamespacesLoop :: "Env \<Rightarrow> SemVer \<Rightarrow> Cursor \<Rightarrow> Diagnostic list
    \<Rightarrow> error + Diagnostic list" where
  "validateNamespacesLoop E language c diagnostics =
     (let r = goToNextNonterminalWithKind ContractDefinition c in
      if fst r then
        (case validateContract E language (snd r) diagnostics of
           Inl e \<Rightarrow> Inl e
         | Inr diagnostics' \<Rightarrow> validateNamespacesLoop E language (snd r) diagnostics')
      else Inr diagnostics)"
  by pat_completeness auto
termination
  by (relation "measure (\<lambda>(E, l, c, ds). remaining c)")
    (auto simp: goToNextNonterminalWithKind_def goToNextMatching_fst_remaining)

declare validateNamespacesLoop.simps [simp del]

definition validateNamespaces :: "Env \<Rightarrow> ParseOutput \<Rightarrow> SemVer \<Rightarrow> Diagnostic list
    \<Rightarrow> error + Diagnostic list" where
  "validateNamespaces E parseOutput language diagnostics =
     validateNamespacesLoop E language (createTreeCursor (tree parseOutput)) diagnostics"

section \<open>The version inference helper (helpers/slang.ts)\<close>

text \<open>The order of the semver library on versions without pre-release tags: major, then
  minor, then patch, each compared as a number.\<close>

definition compareIdentifiers :: "nat \<Rightarrow> nat \<Rightarrow> int" where
  "compareIdentifiers a b = (if a = b then 0 else if a < b then -1 else 1)"

fun compareSemVer :: "SemVer \<Rightarrow> SemVer \<Rightarrow> int" where
  "compareSemVer (major1, minor1, patch1) (major2, minor2, patch2) =
     (if compareIdentifiers major1 major2 \<noteq> 0 then compareIdentifiers major1 major2
      else if compareIdentifiers minor1 minor2 \<noteq> 0 then compareIdentifiers minor1 minor2
      else compareIdentifiers patch1 patch2)"

text \<open>\<^verbatim>\<open>semver.maxSatisfying(versions, range)\<close>: the library runs through the versions and
  keeps the one that satisfies the range and is greater than the one kept so far.\<close>

fun maxSatisfyingLoop :: "(SemVer \<Rightarrow> bool) \<Rightarrow> SemVer list \<Rightarrow> SemVer option \<Rightarrow> SemVer option" where
  "maxSatisfyingLoop test [] mx = mx"
| "maxSatisfyingLoop test (v # vs) mx =
     (if test v then
        (case mx of
           None \<Rightarrow> maxSatisfyingLoop test vs (Some v)
         | Some m \<Rightarrow>
             (if compareSemVer m v = -1 then maxSatisfyingLoop test vs (Some v)
              else maxSatisfyingLoop test vs mx))
      else maxSatisfyingLoop test vs mx)"

definition maxSatisfying :: "Env \<Rightarrow> SemVer list \<Rightarrow> string \<Rightarrow> SemVer option" where
  "maxSatisfying E versions rng = maxSatisfyingLoop (\<lambda>v. satisfies E v rng) versions None"

text \<open>\<^verbatim>\<open>cursor.query([Query.parse("@versionExpressionSet [VersionExpressionSet]")])\<close>: the nodes
  of that kind from the cursor on, in document order.\<close>

definition queryVersionExpressionSets :: "Cursor \<Rightarrow> node list" where
  "queryVersionExpressionSets c =
     filter (isNonterminalWithKind VersionExpressionSet) (map fst (current c # ahead c))"

text \<open>The loop over the children of one set.\<close>

fun versionExpressionsLoop :: "Env \<Rightarrow> node list \<Rightarrow> SemVer list \<Rightarrow> error + SemVer list" where
  "versionExpressionsLoop E [] possibleHighestVersions = Inr possibleHighestVersions"
| "versionExpressionsLoop E (versionExpression # rest) possibleHighestVersions =
     (if isTerminal versionExpression then Inl AssertionError
      else
        (let version = trim (unparse versionExpression) in
         case maxSatisfying E (supportedVersions E) version of
           Some m \<Rightarrow> versionExpressionsLoop E rest (possibleHighestVersions @ [m])
         | None \<Rightarrow> versionExpressionsLoop E rest possibleHighestVersions))"

text \<open>The loop over the matches of the query.\<close>

fun matchesLoop :: "Env \<Rightarrow> node list \<Rightarrow> SemVer list \<Rightarrow> error + SemVer list" where
  "matchesLoop E [] possibleHighestVersions = Inr possibleHighestVersions"
| "matchesLoop E (m # ms) possibleHighestVersions =
     (case versionExpressionsLoop E (children m) possibleHighestVersions of
        Inl e \<Rightarrow> Inl e
      | Inr possibleHighestVersions' \<Rightarrow> matchesLoop E ms possibleHighestVersions')"

definition getHighestSupportedPragmaVersion :: "Env \<Rightarrow> error + SemVer option" where
  "getHighestSupportedPragmaVersion E =
     (let allSolidityVersions = supportedVersions E in
      if allSolidityVersions = [] then Inl LanguageError
      else
        (let language = last allSolidityVersions;
             parseOutput = parse E language SourceUnit (getText E);
             c = createTreeCursor (tree parseOutput)
         in case matchesLoop E (queryVersionExpressionSets c) [] of
           Inl e \<Rightarrow> Inl e
         | Inr possibleHighestVersions \<Rightarrow>
             Inr (maxSatisfying E possibleHighestVersions ''*'')))"

section \<open>Notions used to state the properties\<close>

text \<open>The nodes that a forward search for \<open>P\<close> will stop at, in order.\<close>

definition matchesAhead :: "(node \<Rightarrow> bool) \<Rightarrow> Cursor \<Rightarrow> entry list" where
  "matchesAhead P c = filter (\<lambda>e. P (fst e)) (ahead c)"

text \<open>The function definitions inside the contract the cursor is on, in document order.\<close>

definition contractFunctions :: "Cursor \<Rightarrow> node list" where
  "contractFunctions c =
     map fst (matchesAhead (isNonterminalWithKind FunctionDefinition) (spawn c))"

text \<open>The attributes that exclude a state variable.\<close>

definition isExcludingAttribute :: "AttributeVariant \<Rightarrow> bool" where
  "isExcludingAttribute a =
     (a = TerminalVariant ImmutableKeyword \<or> a = TerminalVariant ConstantKeyword)"

subsection \<open>Struct annotations\<close>

text \<open>The annotation of a struct definition: the namespace id captured from the documentation
  comment in front of it, with the range of that comment.\<close>

definition structAnnotation :: "entry \<Rightarrow> NamespaceIdAndRange option" where
  "structAnnotation e =
     (case getNatSpec (cursorAt e) of
        Inr (Some natSpec) \<Rightarrow>
          (case (if triviaKind natSpec = SingleLineNatSpecComment
                 then matchSingleLine (triviaText natSpec)
                 else matchMultiLine (triviaText natSpec)) of
             Some m \<Rightarrow> Some \<lparr>namespaceId = m, nsTextRange = triviaTextRange natSpec\<rparr>
           | None \<Rightarrow> None)
      | _ \<Rightarrow> None)"

text \<open>The struct annotations of the contract the cursor is on, in document order.\<close>

definition structAnnotations :: "Cursor \<Rightarrow> NamespaceIdAndRange list" where
  "structAnnotations c =
     List.map_filter structAnnotation (matchesAhead (isNonterminalWithKind StructDefinition) (spawn c))"

text \<open>The canonical namespace id of a contract.\<close>

definition expectedId :: "Env \<Rightarrow> ContractDefinitionAst \<Rightarrow> string" where
  "expectedId E contractDef = getExpectedNamespaceId E (getNamespacePrefix E) contractDef"

text \<open>The diagnostic for an annotation whose id is not the canonical one.\<close>

definition mismatchDiagnostic :: "Env \<Rightarrow> ContractDefinitionAst \<Rightarrow> NamespaceIdAndRange \<Rightarrow> Diagnostic" where
  "mismatchDiagnostic E contractDef ns =
     \<lparr>diagRange = slangToVSCodeRange E (nsTextRange ns),
      message = ''Namespace id does not match contract name'',
      details = ''Namepace id does not match prefix `'' @ getNamespacePrefix E
                  @ ''` and contract name `'' @ contractName contractDef @ ''`'',
      severity = Information,
      code = NAMESPACE_ID_MISMATCH,
      data = Replacement (''/// @custom:storage-location erc7201:'' @ expectedId E contractDef)\<rparr>"

definition mismatchDiagnostics :: "Env \<Rightarrow> ContractDefinitionAst \<Rightarrow> NamespaceIdAndRange list
    \<Rightarrow> Diagnostic list" where
  "mismatchDiagnostics E contractDef anns =
     map (mismatchDiagnostic E contractDef)
       (filter (\<lambda>ns. namespaceId ns \<noteq> expectedId E contractDef) anns)"

text \<open>The record of the diagnostic for a repeated namespace id.\<close>

definition duplicateRecord :: "Env \<Rightarrow> NamespaceIdAndRange \<Rightarrow> Diagnostic" where
  "duplicateRecord E ns =
     \<lparr>diagRange = slangToVSCodeRange E (nsTextRange ns),
      message = ''Duplicate namespaces'',
      details = ''Namespace ids must be unique'',
      severity = Error,
      code = DUPLICATE_NAMESPACE_ID,
      data = NoData\<rparr>"

definition multipleRecord :: "Env \<Rightarrow> NamespaceIdAndRange \<Rightarrow> Diagnostic" where
  "multipleRecord E ns =
     \<lparr>diagRange = slangToVSCodeRange E (nsTextRange ns),
      message = ''Multiple namespaces'',
      details = ''Only one namespace per contract is recommended'',
      severity = Warning,
      code = MULTIPLE_NAMESPACES,
      data = NoData\<rparr>"

subsection \<open>The hash validator\<close>

text \<open>The records of the diagnostics of the hash validator.\<close>

definition commentMismatchRecord :: "Env \<Rightarrow> string \<Rightarrow> TriviaTextWithRange \<Rightarrow> Diagnostic" where
  \<open>commentMismatchRecord E expectedNamespaceId cm =
     \<lparr>diagRange = slangToVSCodeRange E (triviaTextRange cm),
      message = ''Comment does not match namespace id'',
      details = ''Expected namespace id `'' @ expectedNamespaceId @ ''`'',
      severity = Warning,
      code = NAMESPACE_ID_MISMATCH_HASH_COMMENT,
      data = Replacement (''// keccak256(abi.encode(uint256(keccak256("'' @ expectedNamespaceId
               @ ''")) - 1)) & ~bytes32(uint256(0xff))'')\<rparr>\<close>

definition hashMismatchRecord :: "Env \<Rightarrow> TextRange \<Rightarrow> string \<Rightarrow> Diagnostic" where
  "hashMismatchRecord E r h =
     \<lparr>diagRange = slangToVSCodeRange E r,
      message = ''ERC7201 storage location hash does not match comment'',
      details = ''Hash does not match formula in comment'',
      severity = Warning,
      code = NAMESPACE_HASH_MISMATCH,
      data = Replacement h\<rparr>"

definition standaloneMismatchRecord :: "Env \<Rightarrow> TextRange \<Rightarrow> string \<Rightarrow> Diagnostic" where
  "standaloneMismatchRecord E r expectedNamespaceId =
     \<lparr>diagRange = slangToVSCodeRange E r,
      message = ''ERC7201 storage location hash does not match expected namespace id'',
      details = ''Expected hash to be based on `'' @ expectedNamespaceId @ ''`'',
      severity = Warning,
      code = NAMESPACE_STANDALONE_HASH_MISMATCH,
      data = Replacement (calculateERC7201StorageLocation E expectedNamespaceId)\<rparr>"

text \<open>The node the hash validator takes for the constant of a variable: where the cursor is
  after the searches for the value and for the expression.\<close>

definition constantCursor :: "Cursor \<Rightarrow> Cursor" where
  "constantCursor sc =
     snd (goToNextNonterminalWithKind Expression
            (snd (goToNextNonterminalWithKind StateVariableDefinitionValue sc)))"

subsection \<open>The engine\<close>

text \<open>The diagnostics of the annotation validator on the contract the cursor is on.\<close>

definition annotationDiagnostics :: "Env \<Rightarrow> Cursor \<Rightarrow> ContractDefinitionAst \<Rightarrow> Diagnostic list
    \<Rightarrow> Diagnostic list" where
  "annotationDiagnostics E c contractDef ds =
     reportMultipleNamespaces E (structAnnotations c)
       (ds @ mismatchDiagnostics E contractDef (structAnnotations c))"

text \<open>The variable classifier followed by the contract-level check.\<close>

definition classifyVariables :: "Env \<Rightarrow> Cursor \<Rightarrow> ContractDefinitionAst \<Rightarrow> bool \<Rightarrow> Diagnostic list
    \<Rightarrow> error + Diagnostic list" where
  "classifyVariables E c contractDef skipDiagnostic ds =
     (case validateNamespaceableVariables E c ds
             \<lparr>ncName = contractName contractDef, variables = []\<rparr> skipDiagnostic of
        Inl e \<Rightarrow> Inl e
      | Inr (ds', namespaceableContract) \<Rightarrow>
          Inr (validateNamespaceableContract E c ds' namespaceableContract))"

text \<open>The codes of the diagnostics of each validator.\<close>

definition annotationCodes :: "string set" where
  "annotationCodes = {NAMESPACE_ID_MISMATCH, DUPLICATE_NAMESPACE_ID, MULTIPLE_NAMESPACES}"

definition hashCodes :: "string set" where
  "hashCodes = {NAMESPACE_ID_MISMATCH_HASH_COMMENT, NAMESPACE_HASH_MISMATCH,
     NAMESPACE_STANDALONE_HASH_MISMATCH}"

definition variableCodes :: "string set" where
  "variableCodes = {VARIABLE_HAS_INITIAL_VALUE, VARIABLE_CAN_BE_NAMESPACED}"

text \<open>The state variable that the variable classifier reads from the parse, in isolation, of
  the text of a state variable definition; none when the typed view of the parsed tree
  throws.\<close>

definition reparsedVariable :: "Env \<Rightarrow> entry \<Rightarrow> StateVariableDefinitionAst option" where
  "reparsedVariable E e =
     (case newStateVariableDefinition (tree (parse E (inferSolidityVersion E)
             StateVariableDefinition (trim (unparse (fst e))))) of
        Inr stateVar \<Rightarrow> Some stateVar
      | Inl err \<Rightarrow> None)"

text \<open>A state variable with no \<open>constant\<close> or \<open>immutable\<close> attribute and no initializer.\<close>

definition isNamespaceable :: "StateVariableDefinitionAst \<Rightarrow> bool" where
  "isNamespaceable stateVar =
     (\<not> list_ex isExcludingAttribute (attributes stateVar) \<and> \<not> hasValue stateVar)"

text \<open>Those among the state variables of the contract the cursor is on, in document order.\<close>

definition namespaceableVariables :: "Env \<Rightarrow> Cursor \<Rightarrow> StateVariableDefinitionAst list" where
  "namespaceableVariables E c =
     filter isNamespaceable (List.map_filter (reparsedVariable E)
       (matchesAhead (isNonterminalWithKind StateVariableDefinition) (spawn c)))"

text \<open>The typed views of the state variables of the contract the cursor is on can be read:
  in the tree, and in the parse of each in isolation.\<close>

definition stateVariablesReadable :: "Env \<Rightarrow> Cursor \<Rightarrow> bool" where
  "stateVariablesReadable E c =
     (\<forall>e \<in> set (matchesAhead (isNonterminalWithKind StateVariableDefinition) (spawn c)).
        \<not> isl (newStateVariableDefinition (fst e)) \<and> reparsedVariable E e \<noteq> None)"

text \<open>The typed views that the engine reads on the contract the cursor is on can be read:
  that of the contract, those of its function definitions and those of its state
  variables.\<close>

definition typedViewsReadable :: "Env \<Rightarrow> Cursor \<Rightarrow> bool" where
  "typedViewsReadable E c =
     (\<not> isl (newContractDefinition (node c))
      \<and> (\<forall>n \<in> set (contractFunctions c). \<not> isl (newFunctionDefinition n))
      \<and> stateVariablesReadable E c)"

text \<open>So it is for every contract definition ahead of the cursor that parses in isolation.\<close>

definition contractsReadable :: "Env \<Rightarrow> SemVer \<Rightarrow> Cursor \<Rightarrow> bool" where
  "contractsReadable E language c =
     (\<forall>e \<in> set (matchesAhead (isNonterminalWithKind ContractDefinition) c).
        isValid (parse E language ContractDefinition (unparse (fst e)))
        \<longrightarrow> typedViewsReadable E (cursorAt e))"

text \<open>The record of the contract-level diagnostic.\<close>

definition contractRecord :: "Env \<Rightarrow> Cursor \<Rightarrow> NamespaceableContract \<Rightarrow> Diagnostic" where
  "contractRecord E c namespaceableContract =
     \<lparr>diagRange = slangToVSCodeRange E
        (fst (textRange (snd (goToNextTerminalWithKind Identifier (spawn c)))),
         snd (textRange c)),
      message = ''Contract can be namespaced.'',
      details = ''If this contract is an upgradeable contract, consider moving its variables to namespaced storage.'',
      severity = Hint,
      code = CONTRACT_CAN_BE_NAMESPACED,
      data = ContractData namespaceableContract\<rparr>"

text \<open>The records of the diagnostics of the variable classifier.\<close>

definition canBeNamespacedRecord :: "Env \<Rightarrow> TextRange \<Rightarrow> Diagnostic" where
  "canBeNamespacedRecord E r =
     \<lparr>diagRange = slangToVSCodeRange E r,
      message = ''Variable can be namespaced.'',
      details = ''If this contract is an upgradeable contract, consider moving this variable to namespaced storage.'',
      severity = Information,
      code = VARIABLE_CAN_BE_NAMESPACED,
      data = NoData\<rparr>"

subsection \<open>The version inference helper, as the specification words it\<close>

text \<open>The greatest supported version that satisfies a range, if there is one.\<close>

definition maxSupported :: "Env \<Rightarrow> string \<Rightarrow> SemVer option" where
  "maxSupported E rng =
     (if \<exists>v \<in> set (supportedVersions E). satisfies E v rng
      then Some (Max {v \<in> set (supportedVersions E). satisfies E v rng}) else None)"

text \<open>The constraint expressions of the document: the children of the matches, in order.\<close>

definition versionExpressions :: "Env \<Rightarrow> node list" where
  "versionExpressions E =
     concat (map children (queryVersionExpressionSets (createTreeCursor
       (tree (parse E (last (supportedVersions E)) SourceUnit (getText E))))))"

definition expressionMaxima :: "Env \<Rightarrow> node list \<Rightarrow> SemVer list" where
  "expressionMaxima E ves = List.map_filter (\<lambda>ve. maxSupported E (trim (unparse ve))) ves"

definition overallMaximum :: "SemVer list \<Rightarrow> SemVer option" where
  "overallMaximum ms = (if ms = [] then None else Some (Max (set ms)))"

section \<open>Example inputs\<close>

text \<open>A parser given by a table from texts to parse results; a text that is not in the table
  does not parse.\<close>

definition tableParse :: "(string \<times> ParseOutput) list \<Rightarrow> SemVer \<Rightarrow> NonterminalKind \<Rightarrow> string
    \<Rightarrow> ParseOutput" where
  "tableParse table v kind text =
     (case map_of table text of
        Some p \<Rightarrow> p
      | None \<Rightarrow> \<lparr>isValid = False, tree = NonterminalNode kind NoAst []\<rparr>)"

text \<open>An environment for the examples. The prefix is \<open>p\<close>, the namespace id of a contract
  is \<open>p.Name\<close>, and the storage location of an id is written \<open>0x\<close> followed by the id: the
  engine only compares and looks for these strings.\<close>

definition exampleEnv :: "(string \<times> ParseOutput) list \<Rightarrow> Env" where
  "exampleEnv table = \<lparr>parse = tableParse table, inferSolidityVersion = (0, 8, 20),
     getNamespacePrefix = ''p'',
     getNamespaceId = (\<lambda>prefix name. prefix @ ''.'' @ name),
     calculateERC7201StorageLocation = (\<lambda>i. ''0x'' @ i),
     positionAt = (\<lambda>n. (0, n)), getText = [],
     supportedVersions = [(0, 8, 19), (0, 8, 20)],
     satisfies = (\<lambda>v r. r = ''*'')\<rparr>"

definition ws :: node where
  "ws = TerminalNode Whitespace '' ''"

definition eol :: node where
  "eol = TerminalNode EndOfLine [CHR 0x0A]"

definition semicolon :: node where
  "semicolon = TerminalNode (OtherTerminal ''Semicolon'') '';''"

text \<open>\<^verbatim>\<open>uint public constant x = 1;\<close>\<close>

definition constantVariable :: node where
  "constantVariable = NonterminalNode StateVariableDefinition
     (StateVariableAst \<lparr>typeName = ''uint'',
        attributes = [TerminalVariant PublicKeyword, TerminalVariant ConstantKeyword],
        variableName = ''x'', hasValue = True\<rparr>)
     [TerminalNode (OtherTerminal ''UintKeyword'') ''uint'', ws,
      TerminalNode PublicKeyword ''public'', ws,
      TerminalNode ConstantKeyword ''constant'', ws,
      TerminalNode Identifier ''x'',
      NonterminalNode StateVariableDefinitionValue NoAst
        [ws, TerminalNode (OtherTerminal ''Equal'') ''='',
         NonterminalNode Expression NoAst
           [ws, TerminalNode (OtherTerminal ''DecimalLiteral'') ''1'']],
      semicolon, eol]"

definition constantVariableEnv :: Env where
  "constantVariableEnv =
     exampleEnv [(''uint public constant x = 1;'', \<lparr>isValid = True, tree = constantVariable\<rparr>)]"

text \<open>\<^verbatim>\<open>pragma solidity >=0.8.0 <0.8.20;\<close> with the supported versions 0.8.19, 0.8.20 and
  0.8.21.\<close>

definition pragmaSourceUnit :: node where
  "pragmaSourceUnit = NonterminalNode SourceUnit NoAst
     [NonterminalNode (OtherNonterminal ''PragmaDirective'') NoAst
        [TerminalNode (OtherTerminal ''PragmaKeyword'') ''pragma'',
         NonterminalNode (OtherNonterminal ''VersionPragma'') NoAst
           [ws, TerminalNode (OtherTerminal ''SolidityKeyword'') ''solidity'',
            NonterminalNode (OtherNonterminal ''VersionExpressionSets'') NoAst
              [NonterminalNode VersionExpressionSet NoAst
                 [NonterminalNode (OtherNonterminal ''VersionExpression'') NoAst
                    [ws, TerminalNode (OtherTerminal ''GreaterThanEqual'') ''>='',
                     TerminalNode (OtherTerminal ''VersionSpecifier'') ''0.8.0''],
                  NonterminalNode (OtherNonterminal ''VersionExpression'') NoAst
                    [ws, TerminalNode (OtherTerminal ''LessThan'') ''<'',
                     TerminalNode (OtherTerminal ''VersionSpecifier'') ''0.8.20'']]]],
         semicolon, eol]]"

definition pragmaEnv :: Env where
  "pragmaEnv = (exampleEnv [])\<lparr>
     parse := (\<lambda>v kind text. \<lparr>isValid = True, tree = pragmaSourceUnit\<rparr>),
     getText := unparse pragmaSourceUnit,
     supportedVersions := [(0, 8, 19), (0, 8, 20), (0, 8, 21)],
     satisfies := (\<lambda>v r. r = ''*'' \<or> (r = ''>=0.8.0'' \<and> (0, 8, 0) \<le> v)
                        \<or> (r = ''<0.8.20'' \<and> v < (0, 8, 20)))\<rparr>"

definition terminal :: "string \<Rightarrow> string \<Rightarrow> node" where
  "terminal kind text = TerminalNode (OtherTerminal kind) text"

definition ident :: "string \<Rightarrow> node" where
  "ident text = TerminalNode Identifier text"

text \<open>\<^verbatim>\<open>contract Name {\<close>, the members, \<^verbatim>\<open>}\<close>, or \<^verbatim>\<open>contract Name is Initializable {\<close> when
  \<open>initializable\<close>; \<open>leading\<close> is the trivia in front of the contract.\<close>

definition exampleContract :: "string \<Rightarrow> bool \<Rightarrow> node list \<Rightarrow> node list \<Rightarrow> node" where
  "exampleContract name initializable leading members =
     NonterminalNode ContractDefinition
       (ContractAst \<lparr>contractName = name,
          inheritance = (if initializable then Some [[''Initializable'']] else None)\<rparr>)
       (leading @
        [terminal ''ContractKeyword'' ''contract'', ws, ident name] @
        (if initializable then
           [NonterminalNode (OtherNonterminal ''InheritanceSpecifier'') NoAst
              [ws, terminal ''IsKeyword'' ''is'',
               NonterminalNode (OtherNonterminal ''InheritanceTypes'') NoAst
                 [NonterminalNode (OtherNonterminal ''InheritanceType'') NoAst
                    [NonterminalNode (OtherNonterminal ''IdentifierPath'') NoAst
                       [ws, ident ''Initializable'']]]]]
         else []) @
        [ws, terminal ''OpenBrace'' ''{'', eol,
         NonterminalNode (OtherNonterminal ''ContractMembers'') NoAst members,
         terminal ''CloseBrace'' ''}'', eol])"

text \<open>\<^verbatim>\<open>function _authorizeUpgrade(T a) {}\<close>, for a type \<open>T\<close> given by its terminals.\<close>

definition authorizeUpgradeFunction :: "node list \<Rightarrow> node" where
  "authorizeUpgradeFunction ty =
     NonterminalNode FunctionDefinition
       (FunctionAst \<lparr>functionName = ''_authorizeUpgrade'',
          parameterTypeNames = [concat (map unparse ty)]\<rparr>)
       [terminal ''FunctionKeyword'' ''function'',
        NonterminalNode (OtherNonterminal ''FunctionName'') NoAst
          [ws, ident ''_authorizeUpgrade''],
        NonterminalNode (OtherNonterminal ''ParametersDeclaration'') NoAst
          [terminal ''OpenParen'' ''('',
           NonterminalNode (OtherNonterminal ''Parameters'') NoAst
             [NonterminalNode (OtherNonterminal ''Parameter'') NoAst
                [NonterminalNode (OtherNonterminal ''TypeName'') NoAst ty,
                 ws, ident ''a'']],
           terminal ''CloseParen'' '')''],
        NonterminalNode (OtherNonterminal ''FunctionBody'') NoAst
          [ws, terminal ''OpenBrace'' ''{'', terminal ''CloseBrace'' ''}'', eol]]"

definition addressContract :: node where
  "addressContract =
     exampleContract ''A'' False [] [authorizeUpgradeFunction [terminal ''AddressKeyword'' ''address'']]"

text \<open>\<^verbatim>\<open>contract A { function _authorizeUpgrade( address a) {} }\<close>, with a space between the
  parenthesis and the type: trivia in front of a token belongs to the innermost node that
  starts with the token, here the type name.\<close>

definition spacedAddressContract :: node where
  "spacedAddressContract =
     exampleContract ''A'' False []
       [authorizeUpgradeFunction [ws, terminal ''AddressKeyword'' ''address'']]"

definition addressPayableContract :: node where
  "addressPayableContract =
     exampleContract ''A'' False []
       [authorizeUpgradeFunction
          [terminal ''AddressKeyword'' ''address'', ws, terminal ''PayableKeyword'' ''payable'']]"

text \<open>A struct under \<^verbatim>\<open>/// @custom:storage-location erc7201:\<close> and the given id:
  \<^verbatim>\<open>struct Name {uint a;}\<close>.\<close>

definition annotatedStruct :: "string \<Rightarrow> string \<Rightarrow> node" where
  "annotatedStruct nsId name =
     NonterminalNode StructDefinition NoAst
       [TerminalNode SingleLineNatSpecComment (''/// @custom:storage-location erc7201:'' @ nsId),
        eol, terminal ''StructKeyword'' ''struct'', ws, ident name, ws,
        terminal ''OpenBrace'' ''{'',
        NonterminalNode (OtherNonterminal ''StructMembers'') NoAst
          [NonterminalNode (OtherNonterminal ''StructMember'') NoAst
             [terminal ''UintKeyword'' ''uint'', ws, ident ''a'', semicolon]],
        terminal ''CloseBrace'' ''}'', eol]"

definition duplicateContract :: "string \<Rightarrow> node" where
  "duplicateContract nsId =
     exampleContract ''T'' True [] [annotatedStruct nsId ''S1'', annotatedStruct nsId ''S2'']"

definition contractT :: ContractDefinitionAst where
  "contractT = \<lparr>contractName = ''T'', inheritance = Some [[''Initializable'']]\<rparr>"

definition annotationAt :: "string \<Rightarrow> nat \<Rightarrow> NamespaceIdAndRange" where
  "annotationAt nsId start =
     \<lparr>namespaceId = nsId,
      nsTextRange = (start, start + length (''/// @custom:storage-location erc7201:'' @ nsId))\<rparr>"

text \<open>The comment \<^verbatim>\<open>// keccak256(abi.encode(uint256(keccak256("id")) - 1)) &
  ~bytes32(uint256(0xff))\<close> for the given id.\<close>

definition formulaComment :: "string \<Rightarrow> node" where
  \<open>formulaComment nsId =
     TerminalNode SingleLineComment
       (''// keccak256(abi.encode(uint256(keccak256("'' @ nsId
          @ ''")) - 1)) & ~bytes32(uint256(0xff))'')\<close>

text \<open>Under that comment, \<^verbatim>\<open>bytes32 constant S_STORAGE_LOCATION = 0x00;\<close>\<close>

definition storageLocationVariable :: "string \<Rightarrow> node" where
  "storageLocationVariable nsId =
     NonterminalNode StateVariableDefinition
       (StateVariableAst \<lparr>typeName = ''bytes32'',
          attributes = [TerminalVariant ConstantKeyword],
          variableName = ''S_STORAGE_LOCATION'', hasValue = True\<rparr>)
       [formulaComment nsId, eol,
        terminal ''Bytes32Keyword'' ''bytes32'', ws,
        TerminalNode ConstantKeyword ''constant'', ws,
        ident ''S_STORAGE_LOCATION'',
        NonterminalNode StateVariableDefinitionValue NoAst
          [ws, terminal ''Equal'' ''='',
           NonterminalNode Expression NoAst [ws, terminal ''HexLiteral'' ''0x00'']],
        semicolon, eol]"

text \<open>Under that comment, \<^verbatim>\<open>uint x;\<close>\<close>

definition commentedVariable :: "string \<Rightarrow> node" where
  "commentedVariable nsId =
     NonterminalNode StateVariableDefinition
       (StateVariableAst \<lparr>typeName = ''uint'', attributes = [],
          variableName = ''x'', hasValue = False\<rparr>)
       [formulaComment nsId, eol,
        terminal ''UintKeyword'' ''uint'', ws, ident ''x'', semicolon, eol]"

definition storageLocationContract :: node where
  "storageLocationContract =
     exampleContract ''T'' True [] [annotatedStruct ''p.T'' ''S1'', storageLocationVariable ''x.y'']"

definition commentedVariableContract :: node where
  "commentedVariableContract =
     exampleContract ''T'' True [] [annotatedStruct ''p.T'' ''S1'', commentedVariable ''x.y'']"

text \<open>The cursor of the hash validator on the first state variable of a contract.\<close>

definition firstStateVariable :: "node \<Rightarrow> Cursor" where
  "firstStateVariable contract =
     snd (goToNextNonterminalWithKind StateVariableDefinition (spawn (cursorAt (contract, 0))))"

definition xyComment :: "nat \<Rightarrow> TriviaTextWithRange" where
  "xyComment start =
     \<lparr>triviaText = unparse (formulaComment ''x.y''),
      triviaTextRange = (start, start + length (unparse (formulaComment ''x.y''))),
      triviaKind = SingleLineComment\<rparr>"

definition validParse :: "node \<Rightarrow> ParseOutput" where
  "validParse n = \<lparr>isValid = True, tree = n\<rparr>"

text \<open>\<^verbatim>\<open>contract T\<close>, not upgradeable, with one struct annotated \<^verbatim>\<open>erc7201:x.y\<close>.\<close>

definition plainAnnotatedContract :: node where
  "plainAnnotatedContract = exampleContract ''T'' False [] [annotatedStruct ''x.y'' ''S1'']"

definition plainAnnotatedEnv :: Env where
  "plainAnnotatedEnv = exampleEnv [(unparse plainAnnotatedContract, validParse plainAnnotatedContract)]"

definition plainT :: ContractDefinitionAst where
  "plainT = \<lparr>contractName = ''T'', inheritance = None\<rparr>"

definition storageLocationEnv :: Env where
  "storageLocationEnv = exampleEnv
     [(unparse storageLocationContract, validParse storageLocationContract),
      (trim (unparse (storageLocationVariable ''x.y'')), validParse (storageLocationVariable ''x.y''))]"

text \<open>\<^verbatim>\<open>uint name;\<close>\<close>

definition simpleVariable :: "string \<Rightarrow> node" where
  "simpleVariable name =
     NonterminalNode StateVariableDefinition
       (StateVariableAst \<lparr>typeName = ''uint'', attributes = [],
          variableName = name, hasValue = False\<rparr>)
       [terminal ''UintKeyword'' ''uint'', ws, ident name, semicolon, eol]"

text \<open>A source unit with one contract.\<close>

definition sourceUnit :: "node \<Rightarrow> node" where
  "sourceUnit contract =
     NonterminalNode SourceUnit NoAst
       [NonterminalNode (OtherNonterminal ''SourceUnitMembers'') NoAst
          [NonterminalNode (OtherNonterminal ''SourceUnitMember'') NoAst [contract]]]"

text \<open>\<^verbatim>\<open>contract T { uint y; }\<close>, upgradeable (\<^verbatim>\<open>is Initializable\<close>) or not.\<close>

definition oneVariableContract :: "bool \<Rightarrow> node" where
  "oneVariableContract initializable = exampleContract ''T'' initializable [] [simpleVariable ''y'']"

definition oneVariableEnv :: "bool \<Rightarrow> Env" where
  "oneVariableEnv initializable = exampleEnv
     [(unparse (oneVariableContract initializable), validParse (oneVariableContract initializable)),
      (''uint y;'', validParse (simpleVariable ''y''))]"

definition pushedY :: "nat \<Rightarrow> NamespaceableContract" where
  "pushedY start =
     \<lparr>ncName = ''T'',
      variables = [\<lparr>content = ''uint y;'', varName = ''y'',
                    varRange = ((0, start), (0, start + 7)), publicGetter = None\<rparr>]\<rparr>"

text \<open>\<^verbatim>\<open>contract T is Initializable { uint = 5; uint y; }\<close>: the first member is not a state
  variable definition of the language, and neither it nor the contract parses in isolation;
  \<^verbatim>\<open>uint y;\<close> does.\<close>

definition brokenVariable :: node where
  "brokenVariable =
     NonterminalNode StateVariableDefinition NoAst
       [terminal ''UintKeyword'' ''uint'', ws, terminal ''Unrecognized'' ''= 5'', semicolon, eol]"

definition brokenContract :: node where
  "brokenContract = exampleContract ''T'' True [] [brokenVariable, simpleVariable ''y'']"

definition brokenEnv :: Env where
  "brokenEnv = exampleEnv
     [(unparse brokenContract, \<lparr>isValid = False, tree = brokenContract\<rparr>),
      (''uint = 5;'', \<lparr>isValid = False, tree = brokenVariable\<rparr>),
      (''uint y;'', validParse (simpleVariable ''y''))]"

text \<open>\<^verbatim>\<open>uint fooStorageLocation;\<close>, which has no initializer, in front of
  \<^verbatim>\<open>bytes32 constant S_STORAGE_LOCATION = 0x00;\<close> under the formula for \<^verbatim>\<open>x.y\<close>.\<close>

definition skippingContract :: node where
  "skippingContract =
     exampleContract ''T'' True []
       [annotatedStruct ''p.T'' ''S1'', simpleVariable ''fooStorageLocation'',
        storageLocationVariable ''x.y'']"

section \<open>Properties\<close>

subsection \<open>Cursors\<close>

lemma node_spawn: "node (spawn c) = node c"
  by (simp add: spawn_def node_def cursorAt_def)

lemma getTrimmedRange_nonterminal:
  "\<not> isTerminal (node c) \<Longrightarrow> \<exists>r. getTrimmedRange c = Inr r"
  by (cases "node c") (auto simp: getTrimmedRange_def Let_def node_spawn)

lemma seekNext_None:
  "filter (\<lambda>e. P (fst e)) xs = [] \<Longrightarrow> seekNext P bs cur xs = None"
  by (induction xs arbitrary: bs cur) (auto split: if_splits)

lemma seekNext_Some:
  "filter (\<lambda>e. P (fst e)) xs = e # es \<Longrightarrow>
   \<exists>bs' xs'. seekNext P bs cur xs = Some (bs', e, xs') \<and> filter (\<lambda>e. P (fst e)) xs' = es"
proof (induction xs arbitrary: bs cur)
  case Nil
  then show ?case by simp
next
  case (Cons y ys)
  show ?case
  proof (cases "P (fst y)")
    case True
    with Cons.prems show ?thesis by simp
  next
    case False
    with Cons.prems have "filter (\<lambda>e. P (fst e)) ys = e # es" by simp
    from Cons.IH [OF this, of "cur # bs" y] False show ?thesis by simp
  qed
qed

lemma goToNextMatching_none:
  assumes "\<not> isCompleted c" "matchesAhead P c = []"
  shows "fst (goToNextMatching P c) = False"
  using assms by (simp add: goToNextMatching_def matchesAhead_def seekNext_None)

lemma goToNextMatching_some:
  assumes "\<not> isCompleted c" "matchesAhead P c = e # es"
  shows "fst (goToNextMatching P c) \<and> current (snd (goToNextMatching P c)) = e
         \<and> matchesAhead P (snd (goToNextMatching P c)) = es
         \<and> \<not> isCompleted (snd (goToNextMatching P c))"
proof -
  from assms(2) obtain bs' xs' where
    "seekNext P (passed c) (current c) (ahead c) = Some (bs', e, xs')"
    "filter (\<lambda>e. P (fst e)) xs' = es"
    unfolding matchesAhead_def using seekNext_Some by blast
  with assms(1) show ?thesis
    by (simp add: goToNextMatching_def matchesAhead_def)
qed

lemma matchesAhead_P: "e \<in> set (matchesAhead P c) \<Longrightarrow> P (fst e)"
  by (simp add: matchesAhead_def)

lemma goToNextNonterminalWithKind_kind:
  assumes "fst (goToNextNonterminalWithKind kind c)"
  shows "isNonterminalWithKind kind (node (snd (goToNextNonterminalWithKind kind c)))"
proof -
  let ?r = "goToNextNonterminalWithKind kind c"
  from assms have nc: "\<not> isCompleted c"
    by (auto simp: goToNextNonterminalWithKind_def goToNextMatching_def)
  from assms nc obtain e es where
    ees: "matchesAhead (isNonterminalWithKind kind) c = e # es"
    using goToNextMatching_none [of c "isNonterminalWithKind kind"]
    by (cases "matchesAhead (isNonterminalWithKind kind) c")
      (auto simp: goToNextNonterminalWithKind_def)
  from goToNextMatching_some [OF nc ees] have "current (snd ?r) = e"
    by (simp add: goToNextNonterminalWithKind_def)
  moreover have "e \<in> set (matchesAhead (isNonterminalWithKind kind) c)"
    using ees by simp
  then have "isNonterminalWithKind kind (fst e)"
    by (rule matchesAhead_P)
  ultimately show ?thesis by (simp add: node_def)
qed

lemma isNonterminalWithKind_not_terminal: "isNonterminalWithKind k n \<Longrightarrow> \<not> isTerminal n"
  by (cases n) auto

lemma spawn_not_completed [simp]: "\<not> isCompleted (spawn c)"
  by (simp add: spawn_def cursorAt_def)

lemma goToPreviousTerminalWithKinds_kind:
  "fst (goToPreviousTerminalWithKinds c kinds) \<Longrightarrow>
   isTerminalWithKinds kinds (node (snd (goToPreviousTerminalWithKinds c kinds)))"
proof (induction c kinds rule: goToPreviousTerminalWithKinds.induct)
  case (1 c kinds)
  show ?case
  proof (cases "fst (goToPrevious c)")
    case False
    with "1.prems" show ?thesis
      by (subst (asm) goToPreviousTerminalWithKinds.simps) (simp add: Let_def)
  next
    case True
    show ?thesis
    proof (cases "isTerminalWithKinds kinds (node (snd (goToPrevious c)))")
      case t: True
      with True show ?thesis
        by (subst goToPreviousTerminalWithKinds.simps) (simp add: Let_def)
    next
      case f: False
      from True f "1.prems"
      have "fst (goToPreviousTerminalWithKinds (snd (goToPrevious c)) kinds)"
        by (subst (asm) goToPreviousTerminalWithKinds.simps) (simp add: Let_def)
      from "1.IH" [OF refl True f this] True f show ?thesis
        by (subst goToPreviousTerminalWithKinds.simps) (simp add: Let_def)
    qed
  qed
qed

lemma getLastPrecedingTriviaWithKinds_total:
  assumes "list_all isTriviaKind kinds"
  shows "\<exists>r. getLastPrecedingTriviaWithKinds c kinds = Inr r
            \<and> (\<forall>t. r = Some t \<longrightarrow> triviaKind t \<in> set kinds)"
proof -
  let ?r1 = "goToFirstNonTrivia (spawn c)"
  let ?r2 = "goToPreviousTerminalWithKinds (snd ?r1) kinds"
  show ?thesis
  proof (cases "fst ?r1 \<and> fst ?r2")
    case False
    with assms show ?thesis
      by (auto simp: getLastPrecedingTriviaWithKinds_def Let_def)
  next
    case True
    then have "isTerminalWithKinds kinds (node (snd ?r2))"
      by (simp add: goToPreviousTerminalWithKinds_kind)
    then obtain k t where "node (snd ?r2) = TerminalNode k t" "k \<in> set kinds"
      by (cases "node (snd ?r2)") auto
    with True assms show ?thesis
      by (auto simp: getLastPrecedingTriviaWithKinds_def Let_def)
  qed
qed

lemma getLastPrecedingTriviaWithKinds_current:
  "getLastPrecedingTriviaWithKinds c kinds = getLastPrecedingTriviaWithKinds (cursorAt (current c)) kinds"
  by (simp add: getLastPrecedingTriviaWithKinds_def spawn_def cursorAt_def)

lemma getNatSpec_total:
  "\<exists>r. getNatSpec c = Inr r \<and> (\<forall>t. r = Some t \<longrightarrow>
     triviaKind t = MultiLineNatSpecComment \<or> triviaKind t = SingleLineNatSpecComment)"
  using getLastPrecedingTriviaWithKinds_total
    [of "[MultiLineNatSpecComment, SingleLineNatSpecComment]" c]
  by (auto simp: getNatSpec_def)

subsection \<open>The variable classifier\<close>

lemma attributeLoop_ignore:
  "fst (attributeLoop sv as (ign, repl, g)) = (ign \<or> list_ex isExcludingAttribute as)"
  by (induction as arbitrary: ign repl g) (auto simp: isExcludingAttribute_def)

text \<open>
  C8. A state variable whose attributes contain \<open>immutable\<close> or \<open>constant\<close> is excluded
  entirely by the variable classifier: the turn of the loop on that variable leaves the
  diagnostics and the list of namespaceable variables as they were, whatever its other
  attributes, whether it has an initializer, and whether diagnostics are suppressed.
\<close>

theorem constant_or_immutable_variable_excluded:
  assumes "isNonterminalWithKind StateVariableDefinition (node c)"
    and "newStateVariableDefinition (tree (parse E (inferSolidityVersion E) StateVariableDefinition
           (trim (unparse (node c))))) = Inr stateVar"
    and "TerminalVariant ImmutableKeyword \<in> set (attributes stateVar)
         \<or> TerminalVariant ConstantKeyword \<in> set (attributes stateVar)"
  shows "validateNamespaceableVariable E c skipDiagnostic (diagnostics, namespaceableContract)
         = Inr (diagnostics, namespaceableContract)"
proof -
  from assms(1) have nt: "\<not> isTerminal (node c)" by (cases "node c") auto
  then obtain r where r: "getTrimmedRange c = Inr r"
    using getTrimmedRange_nonterminal by blast
  from assms(3) have "list_ex isExcludingAttribute (attributes stateVar)"
    by (auto simp: list_ex_iff isExcludingAttribute_def)
  then have "fst (attributeLoop stateVar (attributes stateVar)
      (False, trim (unparse (node c)), None))"
    by (simp add: attributeLoop_ignore)
  with nt r assms(2) show ?thesis
    by (simp add: validateNamespaceableVariable_def Let_def)
qed

theorem constant_or_immutable_variable_excluded_witness:
  "validateNamespaceableVariable constantVariableEnv (cursorAt (constantVariable, 7)) False
     ([], \<lparr>ncName = ''C'', variables = []\<rparr>) = Inr ([], \<lparr>ncName = ''C'', variables = []\<rparr>)"
proof -
  have h1: "isNonterminalWithKind StateVariableDefinition (node (cursorAt (constantVariable, 7)))"
    by code_simp
  have h2: "newStateVariableDefinition (tree (parse constantVariableEnv
      (inferSolidityVersion constantVariableEnv) StateVariableDefinition
      (trim (unparse (node (cursorAt (constantVariable, 7))))))) =
      Inr \<lparr>typeName = ''uint'',
        attributes = [TerminalVariant PublicKeyword, TerminalVariant ConstantKeyword],
        variableName = ''x'', hasValue = True\<rparr>"
    by code_simp
  show ?thesis
    by (rule constant_or_immutable_variable_excluded [OF h1 h2]) simp
qed

subsection \<open>The namespace annotation validator\<close>

lemma validateStructAnnotation_eq:
  assumes "\<not> isTerminal (node sc)"
  shows "validateStructAnnotation E contractDef sc (found, ds) =
     Inr (case structAnnotation (current sc) of
            None \<Rightarrow> (found, ds)
          | Some ns \<Rightarrow> (found @ [ns], ds @ mismatchDiagnostics E contractDef [ns]))"
proof -
  obtain r where r: "getNatSpec sc = Inr r"
    "\<forall>t. r = Some t \<longrightarrow>
       triviaKind t = MultiLineNatSpecComment \<or> triviaKind t = SingleLineNatSpecComment"
    using getNatSpec_total by blast
  then have r': "getNatSpec (cursorAt (current sc)) = Inr r"
    using getLastPrecedingTriviaWithKinds_current [of sc] by (simp add: getNatSpec_def)
  show ?thesis
  proof (cases r)
    case None
    with r r' assms show ?thesis
      by (simp add: validateStructAnnotation_def structAnnotation_def)
  next
    case (Some natSpec)
    with r(2) have k: "triviaKind natSpec = MultiLineNatSpecComment
        \<or> triviaKind natSpec = SingleLineNatSpecComment" by simp
    with Some r r' assms show ?thesis
      by (auto simp: validateStructAnnotation_def structAnnotation_def Let_def
          mismatchDiagnostics_def mismatchDiagnostic_def expectedId_def addDiagnostic_def
          split: option.splits)
  qed
qed

lemma validateStructAnnotationsLoop_eq:
  assumes "\<not> isCompleted sc"
  shows "validateStructAnnotationsLoop E contractDef sc (found, ds) =
     Inr (found @ List.map_filter structAnnotation
                    (matchesAhead (isNonterminalWithKind StructDefinition) sc),
          ds @ mismatchDiagnostics E contractDef
                 (List.map_filter structAnnotation
                    (matchesAhead (isNonterminalWithKind StructDefinition) sc)))"
  using assms
proof (induction "matchesAhead (isNonterminalWithKind StructDefinition) sc"
    arbitrary: sc found ds)
  case Nil
  from goToNextMatching_none [OF Nil.prems Nil.hyps [symmetric]] Nil.hyps [symmetric]
  show ?case
    by (subst validateStructAnnotationsLoop.simps)
      (simp add: goToNextNonterminalWithKind_def mismatchDiagnostics_def)
next
  case (Cons e es)
  let ?P = "isNonterminalWithKind StructDefinition"
  let ?r = "goToNextMatching ?P sc"
  from goToNextMatching_some [OF Cons.prems Cons.hyps(2) [symmetric]]
  have r: "fst ?r" "current (snd ?r) = e" "matchesAhead ?P (snd ?r) = es"
    "\<not> isCompleted (snd ?r)" by simp_all
  have "e \<in> set (matchesAhead ?P sc)" using Cons.hyps(2) [symmetric] by simp
  then have nt: "\<not> isTerminal (node (snd ?r))"
    using r(2) by (auto simp: node_def dest: matchesAhead_P isNonterminalWithKind_not_terminal)
  note IH = Cons.hyps(1) [OF r(3) [symmetric] r(4)]
  show ?case
    using r(1,2,3) Cons.hyps(2) [symmetric]
    by (subst validateStructAnnotationsLoop.simps)
      (auto simp: goToNextNonterminalWithKind_def Let_def validateStructAnnotation_eq [OF nt]
        IH mismatchDiagnostics_def map_filter_def split: option.splits)
qed

lemma validateNamespaceStructAnnotation_eq:
  "validateNamespaceStructAnnotation E c contractDef ds =
     Inr (if length (structAnnotations c) = 1 then Some (structAnnotations c ! 0) else None,
          reportMultipleNamespaces E (structAnnotations c)
            (ds @ mismatchDiagnostics E contractDef (structAnnotations c)))"
  by (simp add: validateNamespaceStructAnnotation_def structAnnotations_def
      validateStructAnnotationsLoop_eq [of "spawn c" E contractDef "[]" ds, simplified])

lemma findIndex_le:
  "i < length xs \<Longrightarrow> p (xs ! i) \<Longrightarrow> 0 \<le> findIndex p xs \<and> findIndex p xs \<le> int i"
proof (induction xs arbitrary: i)
  case Nil
  then show ?case by simp
next
  case (Cons x xs)
  show ?case
  proof (cases "p x")
    case True
    then show ?thesis by simp
  next
    case False
    with Cons.prems obtain j where j: "i = Suc j" by (cases i) auto
    with Cons.prems have "j < length xs" "p (xs ! j)" by simp_all
    from Cons.IH [OF this] False j show ?thesis by (simp add: Let_def)
  qed
qed

lemma foldl_duplicateDiagnostic:
  "foldl (duplicateDiagnostic E) ds xs = ds @ map (duplicateRecord E) xs"
  by (induction xs arbitrary: ds)
    (simp_all add: duplicateDiagnostic_def addDiagnostic_def duplicateRecord_def)

lemma foldl_multipleDiagnostic:
  "foldl (multipleDiagnostic E) ds xs = ds @ map (multipleRecord E) xs"
  by (induction xs arbitrary: ds)
    (simp_all add: multipleDiagnostic_def addDiagnostic_def multipleRecord_def)

lemma duplicateNamespaceIds_nonempty:
  assumes "\<not> distinct (map namespaceId xs)"
  shows "duplicateNamespaceIds xs \<noteq> []"
proof -
  from assms obtain i j where ij: "i < length xs" "j < length xs" "i \<noteq> j"
    "namespaceId (xs ! i) = namespaceId (xs ! j)"
    by (auto simp: distinct_conv_nth)
  define a where "a = min i j"
  define b where "b = max i j"
  from ij have ab: "a < b" "b < length xs" "namespaceId (xs ! a) = namespaceId (xs ! b)"
    by (auto simp: a_def b_def min_def max_def)
  then have "a < length xs" by simp
  from findIndex_le [OF this, of "\<lambda>t. namespaceId t = namespaceId (xs ! b)"] ab
  have "findIndex (\<lambda>t. namespaceId t = namespaceId (xs ! b)) xs \<noteq> int b" by simp
  moreover from ab have "(b, xs ! b) \<in> set (enumerate 0 xs)"
    by (simp add: in_set_enumerate_eq)
  ultimately have "xs ! b \<in> set (duplicateNamespaceIds xs)"
    by (force simp: duplicateNamespaceIds_def)
  then show ?thesis by auto
qed

lemma not_distinct_length:
  "\<not> distinct (map f xs) \<Longrightarrow> 1 < length xs"
  by (cases xs; cases "tl xs") auto

text \<open>
  C2 (as amended). The specification has the diagnostic at both annotations; the validator
  keeps, of the annotations found, those that are not the first with their id. For a contract
  with exactly two struct annotations that carry the same namespace id, the annotation
  validator emits exactly one \<open>DuplicateNamespaceId\<close> error, at the range of the second
  annotation, after the \<open>NamespaceIdMismatch\<close> diagnostics of the two annotations, and
  returns no single namespace.
\<close>

theorem duplicate_reported_at_later_occurrence:
  assumes "structAnnotations c = [n1, n2]" and "namespaceId n1 = namespaceId n2"
  shows "validateNamespaceStructAnnotation E c contractDef ds =
     Inr (None, ds @ mismatchDiagnostics E contractDef [n1, n2] @ [duplicateRecord E n2])"
proof -
  from assms(2) have "duplicateNamespaceIds [n1, n2] = [n2]"
    by (simp add: duplicateNamespaceIds_def)
  with assms(1) show ?thesis
    by (simp add: validateNamespaceStructAnnotation_eq reportMultipleNamespaces_def
        duplicateDiagnostic_def addDiagnostic_def duplicateRecord_def)
qed

theorem duplicate_reported_at_later_occurrence_witness:
  "validateNamespaceStructAnnotation (exampleEnv []) (cursorAt (duplicateContract ''p.T'', 0))
       contractT []
     = Inr (None, [duplicateRecord (exampleEnv []) (annotationAt ''p.T'' 91)])"
proof -
  let ?c = "cursorAt (duplicateContract ''p.T'', 0)"
  have h1: "structAnnotations ?c = [annotationAt ''p.T'' 30, annotationAt ''p.T'' 91]"
    by code_simp
  have h2: "namespaceId (annotationAt ''p.T'' 30) = namespaceId (annotationAt ''p.T'' 91)"
    by (simp add: annotationAt_def)
  have m: "mismatchDiagnostics (exampleEnv []) contractT
      [annotationAt ''p.T'' 30, annotationAt ''p.T'' 91] = []"
    by code_simp
  from duplicate_reported_at_later_occurrence [OF h1 h2, of "exampleEnv []" contractT "[]"] m
  show ?thesis by simp
qed

text \<open>As stated, this fails on \<^verbatim>\<open>contract T is Initializable\<close> with two structs annotated
  \<^verbatim>\<open>erc7201:p.T\<close>: one diagnostic, at the second annotation.\<close>

theorem duplicate_reported_for_both_counterexample:
  "structAnnotations (cursorAt (duplicateContract ''p.T'', 0))
     = [annotationAt ''p.T'' 30, annotationAt ''p.T'' 91]
   \<and> validateNamespaceStructAnnotation (exampleEnv []) (cursorAt (duplicateContract ''p.T'', 0))
       contractT []
     = Inr (None, [duplicateRecord (exampleEnv []) (annotationAt ''p.T'' 91)])"
  by code_simp

text \<open>
  C3 (as amended). When two struct annotations of a contract carry the same namespace id,
  the annotation validator emits no \<open>MultipleNamespaces\<close> diagnostic: after the
  \<open>NamespaceIdMismatch\<close> diagnostics, one for every annotation whose id is not the canonical
  one, repeated or not, it emits a \<open>DuplicateNamespaceId\<close> diagnostic for every annotation
  that is not the first with its id, and there is at least one.
\<close>

theorem duplicates_suppress_only_multiple:
  assumes "\<not> distinct (map namespaceId (structAnnotations c))"
  shows "duplicateNamespaceIds (structAnnotations c) \<noteq> []
    \<and> validateNamespaceStructAnnotation E c contractDef ds =
        Inr (None, ds @ mismatchDiagnostics E contractDef (structAnnotations c)
                      @ map (duplicateRecord E) (duplicateNamespaceIds (structAnnotations c)))
    \<and> MULTIPLE_NAMESPACES \<notin> code ` set (mismatchDiagnostics E contractDef (structAnnotations c)
                      @ map (duplicateRecord E) (duplicateNamespaceIds (structAnnotations c)))"
proof -
  from assms have "1 < length (structAnnotations c)" by (rule not_distinct_length)
  moreover from assms have "duplicateNamespaceIds (structAnnotations c) \<noteq> []"
    by (rule duplicateNamespaceIds_nonempty)
  moreover have "MULTIPLE_NAMESPACES \<noteq> NAMESPACE_ID_MISMATCH"
    "MULTIPLE_NAMESPACES \<noteq> DUPLICATE_NAMESPACE_ID"
    by (simp_all add: MULTIPLE_NAMESPACES_def NAMESPACE_ID_MISMATCH_def DUPLICATE_NAMESPACE_ID_def)
  ultimately show ?thesis
    by (auto simp: validateNamespaceStructAnnotation_eq reportMultipleNamespaces_def
        foldl_duplicateDiagnostic mismatchDiagnostics_def mismatchDiagnostic_def
        duplicateRecord_def)
qed

theorem duplicates_suppress_only_multiple_witness:
  "validateNamespaceStructAnnotation (exampleEnv []) (cursorAt (duplicateContract ''x.y'', 0))
       contractT []
     = Inr (None, [mismatchDiagnostic (exampleEnv []) contractT (annotationAt ''x.y'' 30),
                   mismatchDiagnostic (exampleEnv []) contractT (annotationAt ''x.y'' 91),
                   duplicateRecord (exampleEnv []) (annotationAt ''x.y'' 91)])"
proof -
  let ?c = "cursorAt (duplicateContract ''x.y'', 0)"
  have h: "\<not> distinct (map namespaceId (structAnnotations ?c))"
    by code_simp
  have m: "mismatchDiagnostics (exampleEnv []) contractT (structAnnotations ?c)
      = [mismatchDiagnostic (exampleEnv []) contractT (annotationAt ''x.y'' 30),
         mismatchDiagnostic (exampleEnv []) contractT (annotationAt ''x.y'' 91)]"
    by code_simp
  have d: "duplicateNamespaceIds (structAnnotations ?c) = [annotationAt ''x.y'' 91]"
    by code_simp
  from duplicates_suppress_only_multiple [OF h, of "exampleEnv []" contractT "[]"] m d
  show ?thesis by simp
qed

text \<open>As stated, this fails on \<^verbatim>\<open>contract T is Initializable\<close> with two structs annotated
  \<^verbatim>\<open>erc7201:x.y\<close>, where the canonical id is \<^verbatim>\<open>p.T\<close>: both annotations get a
  \<open>NamespaceIdMismatch\<close>.\<close>

theorem mismatch_suppressed_by_duplicates_counterexample:
  "validateNamespaceStructAnnotation (exampleEnv []) (cursorAt (duplicateContract ''x.y'', 0))
       contractT []
     = Inr (None, [mismatchDiagnostic (exampleEnv []) contractT (annotationAt ''x.y'' 30),
                   mismatchDiagnostic (exampleEnv []) contractT (annotationAt ''x.y'' 91),
                   duplicateRecord (exampleEnv []) (annotationAt ''x.y'' 91)])
   \<and> code (mismatchDiagnostic (exampleEnv []) contractT (annotationAt ''x.y'' 30))
     = ''NamespaceIdMismatch''"
  by code_simp

subsection \<open>The namespace hash validator\<close>

lemma checkFormulaComment_mismatch:
  assumes "matchFormula (triviaText cm) = Some m" "m \<noteq> expectedNamespaceId"
  shows "checkFormulaComment E expectedNamespaceId (Some cm) ds =
     (Some (calculateERC7201StorageLocation E m), True,
      ds @ [commentMismatchRecord E expectedNamespaceId cm])"
  using assms
  by (simp add: checkFormulaComment_def addDiagnostic_def commentMismatchRecord_def)

lemma checkHashes_flagged:
  assumes "getTrimmedRange c2 = Inr r"
  shows "checkHashes E expectedNamespaceId c2 text (Some h) True ds =
     Inr (if string_includes text h then ds else ds @ [hashMismatchRecord E r h])"
  using assms
  by (simp add: checkHashes_def Let_def addDiagnostic_def hashMismatchRecord_def)

text \<open>Without a formula in a comment, the constant is checked against the canonical hash
  alone.\<close>

lemma standalone_check_without_formula:
  assumes "getTrimmedRange c2 = Inr r"
    and "\<not> string_includes text (calculateERC7201StorageLocation E expectedNamespaceId)"
  shows "checkHashes E expectedNamespaceId c2 text None False ds =
     Inr (ds @ [standaloneMismatchRecord E r expectedNamespaceId])"
  using assms
  by (simp add: checkHashes_def Let_def addDiagnostic_def standaloneMismatchRecord_def)

text \<open>
  C1 (as amended). The specification has both hash warnings; the validator skips the
  standalone check once the comment has been flagged. For a state variable definition that
  the hash validator visits, that is, on which the search of its loop stops, whose name ends
  in \<open>_STORAGE_LOCATION\<close> or \<open>StorageLocation\<close>, in front of which a comment holds the formula
  with an id that differs from the expected id, and for which the text of the node taken for
  its constant does not contain the hash of the id of the comment: the turn of the validator
  emits a \<open>NamespaceIdMismatchHashComment\<close> warning and a \<open>NamespaceHashMismatch\<close> warning,
  and no \<open>NamespaceStandaloneHashMismatch\<close> warning, whether or not the text contains the
  canonical hash; the loop of the validator goes on with these two diagnostics added, from
  the node taken for the constant.
\<close>

theorem flagged_comment_suppresses_standalone_check:
  assumes "\<not> isTerminal (node sc)"
    and "newStateVariableDefinition (node sc) = Inr stateVar"
    and "isStorageLocationName (variableName stateVar)"
    and "getLastPrecedingTriviaWithKinds sc [SingleLineComment, MultiLineComment] = Inr (Some cm)"
    and "matchFormula (triviaText cm) = Some m"
    and "m \<noteq> expectedNamespaceId"
    and "\<not> isTerminal (node (constantCursor sc))"
    and "\<not> string_includes (unparse (node (constantCursor sc)))
            (calculateERC7201StorageLocation E m)"
  shows "\<exists>r. getTrimmedRange (constantCursor sc) = Inr r
    \<and> validateCommentAndHashOfVariable E expectedNamespaceId sc ds =
        Inr (constantCursor sc,
             ds @ [commentMismatchRecord E expectedNamespaceId cm,
                   hashMismatchRecord E r (calculateERC7201StorageLocation E m)])
    \<and> NAMESPACE_STANDALONE_HASH_MISMATCH \<notin>
        code ` set [commentMismatchRecord E expectedNamespaceId cm,
                    hashMismatchRecord E r (calculateERC7201StorageLocation E m)]
    \<and> (\<forall>c0. fst (goToNextNonterminalWithKind StateVariableDefinition c0)
             \<and> snd (goToNextNonterminalWithKind StateVariableDefinition c0) = sc
          \<longrightarrow> validateNamespaceCommentAndHashLoop E expectedNamespaceId c0 ds =
              validateNamespaceCommentAndHashLoop E expectedNamespaceId (constantCursor sc)
                (ds @ [commentMismatchRecord E expectedNamespaceId cm,
                       hashMismatchRecord E r (calculateERC7201StorageLocation E m)]))"
proof -
  from assms(7) obtain r where r: "getTrimmedRange (constantCursor sc) = Inr r"
    using getTrimmedRange_nonterminal by blast
  have turn: "validateCommentAndHashOfVariable E expectedNamespaceId sc ds =
        Inr (constantCursor sc,
             ds @ [commentMismatchRecord E expectedNamespaceId cm,
                   hashMismatchRecord E r (calculateERC7201StorageLocation E m)])"
    using assms r
    by (simp add: validateCommentAndHashOfVariable_def Let_def
        checkFormulaComment_mismatch checkHashes_flagged [OF r] constantCursor_def [symmetric])
  have codes: "NAMESPACE_STANDALONE_HASH_MISMATCH \<notin>
        code ` set [commentMismatchRecord E expectedNamespaceId cm,
                    hashMismatchRecord E r (calculateERC7201StorageLocation E m)]"
    by (simp add: commentMismatchRecord_def hashMismatchRecord_def
        NAMESPACE_STANDALONE_HASH_MISMATCH_def
        NAMESPACE_ID_MISMATCH_HASH_COMMENT_def NAMESPACE_HASH_MISMATCH_def)
  have loop: "validateNamespaceCommentAndHashLoop E expectedNamespaceId c0 ds =
              validateNamespaceCommentAndHashLoop E expectedNamespaceId (constantCursor sc)
                (ds @ [commentMismatchRecord E expectedNamespaceId cm,
                       hashMismatchRecord E r (calculateERC7201StorageLocation E m)])"
    if "fst (goToNextNonterminalWithKind StateVariableDefinition c0)
          \<and> snd (goToNextNonterminalWithKind StateVariableDefinition c0) = sc" for c0
    using that turn
    by (subst validateNamespaceCommentAndHashLoop.simps) (simp add: Let_def)
  from r turn codes loop show ?thesis by blast
qed

theorem flagged_comment_suppresses_standalone_check_witness:
  "validateCommentAndHashOfVariable (exampleEnv []) ''p.T''
     (firstStateVariable storageLocationContract) []
     = Inr (constantCursor (firstStateVariable storageLocationContract),
            [commentMismatchRecord (exampleEnv []) ''p.T'' (xyComment 91),
             hashMismatchRecord (exampleEnv []) (211, 215) ''0xx.y''])
   \<and> validateNamespaceCommentAndHashLoop (exampleEnv []) ''p.T''
       (spawn (cursorAt (storageLocationContract, 0))) []
     = validateNamespaceCommentAndHashLoop (exampleEnv []) ''p.T''
         (constantCursor (firstStateVariable storageLocationContract))
         [commentMismatchRecord (exampleEnv []) ''p.T'' (xyComment 91),
          hashMismatchRecord (exampleEnv []) (211, 215) ''0xx.y'']"
proof -
  let ?sc = "firstStateVariable storageLocationContract"
  let ?c0 = "spawn (cursorAt (storageLocationContract, 0))"
  have h1: "\<not> isTerminal (node ?sc)" by code_simp
  have h2: "newStateVariableDefinition (node ?sc) =
      Inr \<lparr>typeName = ''bytes32'', attributes = [TerminalVariant ConstantKeyword],
           variableName = ''S_STORAGE_LOCATION'', hasValue = True\<rparr>" by code_simp
  have h3: "isStorageLocationName (variableName
      \<lparr>typeName = ''bytes32'', attributes = [TerminalVariant ConstantKeyword],
       variableName = ''S_STORAGE_LOCATION'', hasValue = True\<rparr>)" by code_simp
  have h4: "getLastPrecedingTriviaWithKinds ?sc [SingleLineComment, MultiLineComment]
      = Inr (Some (xyComment 91))" by code_simp
  have h5: "matchFormula (triviaText (xyComment 91)) = Some ''x.y''" by code_simp
  have h6: "''x.y'' \<noteq> ''p.T''" by simp
  have h7: "\<not> isTerminal (node (constantCursor ?sc))" by code_simp
  have h8: "\<not> string_includes (unparse (node (constantCursor ?sc)))
      (calculateERC7201StorageLocation (exampleEnv []) ''x.y'')" by code_simp
  have r: "getTrimmedRange (constantCursor ?sc) = Inr (211, 215)" by code_simp
  have c: "calculateERC7201StorageLocation (exampleEnv []) ''x.y'' = ''0xx.y''" by code_simp
  have v: "fst (goToNextNonterminalWithKind StateVariableDefinition ?c0)" by code_simp
  have s: "snd (goToNextNonterminalWithKind StateVariableDefinition ?c0) = ?sc"
    by (simp add: firstStateVariable_def)
  from flagged_comment_suppresses_standalone_check [OF h1 h2 h3 h4 h5 h6 h7 h8, of "[]"]
  obtain r' where r': "getTrimmedRange (constantCursor ?sc) = Inr r'"
    and t: "validateCommentAndHashOfVariable (exampleEnv []) ''p.T'' ?sc [] =
        Inr (constantCursor ?sc,
             [] @ [commentMismatchRecord (exampleEnv []) ''p.T'' (xyComment 91),
                   hashMismatchRecord (exampleEnv []) r'
                     (calculateERC7201StorageLocation (exampleEnv []) ''x.y'')])"
    and l: "\<forall>c0. fst (goToNextNonterminalWithKind StateVariableDefinition c0)
             \<and> snd (goToNextNonterminalWithKind StateVariableDefinition c0) = ?sc
          \<longrightarrow> validateNamespaceCommentAndHashLoop (exampleEnv []) ''p.T'' c0 [] =
              validateNamespaceCommentAndHashLoop (exampleEnv []) ''p.T'' (constantCursor ?sc)
                ([] @ [commentMismatchRecord (exampleEnv []) ''p.T'' (xyComment 91),
                       hashMismatchRecord (exampleEnv []) r'
                         (calculateERC7201StorageLocation (exampleEnv []) ''x.y'')])"
    by blast
  from r r' have "r' = (211, 215)" by simp
  with t l [rule_format, of ?c0] v s c show ?thesis by simp
qed

text \<open>As stated, this fails on \<^verbatim>\<open>bytes32 constant S_STORAGE_LOCATION = 0x00;\<close> under the
  formula for \<^verbatim>\<open>x.y\<close>, in a contract whose expected id is \<^verbatim>\<open>p.T\<close>: the text \<^verbatim>\<open>0x00\<close> contains
  neither hash, and two diagnostics are emitted, none of them the standalone one.\<close>

theorem standalone_mismatch_with_flagged_comment_counterexample:
  "validateNamespaceCommentAndHash (exampleEnv []) ''p.T'' (cursorAt (storageLocationContract, 0)) []
     = Inr [commentMismatchRecord (exampleEnv []) ''p.T'' (xyComment 91),
            hashMismatchRecord (exampleEnv []) (211, 215) ''0xx.y'']
   \<and> unparse (node (constantCursor (firstStateVariable storageLocationContract))) = '' 0x00''
   \<and> \<not> string_includes '' 0x00'' (calculateERC7201StorageLocation (exampleEnv []) ''x.y'')
   \<and> \<not> string_includes '' 0x00'' (calculateERC7201StorageLocation (exampleEnv []) ''p.T'')"
  by code_simp

text \<open>The validator does not visit every state variable definition of a contract. A variable
  named as a storage location that has no initializer sends the cursor of the loop to the
  initializer of a later definition, which is checked as its constant, and the loop goes on
  from there: in \<^verbatim>\<open>uint fooStorageLocation;\<close> followed by the constant of the example
  above, the constant is checked against the canonical hash alone, for the first variable,
  and its own definition, with its comment, is never visited.\<close>

lemma definition_inside_moved_cursor_not_visited:
  "map (\<lambda>e. trim (unparse (fst e)))
     (matchesAhead (isNonterminalWithKind StateVariableDefinition)
        (cursorAt (skippingContract, 0)))
     = [''uint fooStorageLocation;'', trim (unparse (storageLocationVariable ''x.y''))]
   \<and> constantCursor (firstStateVariable skippingContract)
     = constantCursor (snd (goToNextNonterminalWithKind StateVariableDefinition
         (firstStateVariable skippingContract)))
   \<and> \<not> fst (goToNextNonterminalWithKind StateVariableDefinition
            (constantCursor (firstStateVariable skippingContract)))
   \<and> validateNamespaceCommentAndHash (exampleEnv []) ''p.T'' (cursorAt (skippingContract, 0)) []
     = Inr [standaloneMismatchRecord (exampleEnv []) (236, 240) ''p.T'']"
  by code_simp

text \<open>
  C6 (as amended). The specification restricts the check of the comment to the storage
  location variable; the validator makes it for every state variable definition it visits, before it
  looks at the name. In the turn of the hash validator on any state variable in front of which
  a comment holds the formula with an id that differs from the expected id, a
  \<open>NamespaceIdMismatchHashComment\<close> diagnostic is emitted for that comment; when the name of
  the variable does not end in \<open>_STORAGE_LOCATION\<close> or \<open>StorageLocation\<close>, it is the only
  diagnostic of the turn and the cursor stays where it is.
\<close>

theorem comment_checked_for_every_variable:
  assumes "\<not> isTerminal (node sc)"
    and "newStateVariableDefinition (node sc) = Inr stateVar"
    and "getLastPrecedingTriviaWithKinds sc [SingleLineComment, MultiLineComment] = Inr (Some cm)"
    and "matchFormula (triviaText cm) = Some m"
    and "m \<noteq> expectedNamespaceId"
  shows "\<exists>c' rest. validateCommentAndHashOfVariable E expectedNamespaceId sc ds =
        Inr (c', ds @ commentMismatchRecord E expectedNamespaceId cm # rest)
      \<and> (\<not> isStorageLocationName (variableName stateVar) \<longrightarrow> c' = sc \<and> rest = [])"
proof (cases "isStorageLocationName (variableName stateVar)")
  case False
  with assms show ?thesis
    by (simp add: validateCommentAndHashOfVariable_def Let_def checkFormulaComment_mismatch)
next
  case True
  show ?thesis
  proof (cases "isTerminal (node (constantCursor sc))")
    case t: True
    with True assms show ?thesis
      by (simp add: validateCommentAndHashOfVariable_def Let_def checkFormulaComment_mismatch
          constantCursor_def [symmetric])
  next
    case f: False
    then obtain r where r: "getTrimmedRange (constantCursor sc) = Inr r"
      using getTrimmedRange_nonterminal by blast
    with True f assms show ?thesis
      by (simp add: validateCommentAndHashOfVariable_def Let_def checkFormulaComment_mismatch
          checkHashes_flagged [OF r] constantCursor_def [symmetric])
  qed
qed

theorem comment_checked_for_every_variable_witness:
  "validateCommentAndHashOfVariable (exampleEnv []) ''p.T''
     (firstStateVariable commentedVariableContract) []
     = Inr (firstStateVariable commentedVariableContract,
            [commentMismatchRecord (exampleEnv []) ''p.T'' (xyComment 91)])"
proof -
  let ?sc = "firstStateVariable commentedVariableContract"
  let ?sv = "\<lparr>typeName = ''uint'', attributes = [], variableName = ''x'', hasValue = False\<rparr>"
  have h1: "\<not> isTerminal (node ?sc)" by code_simp
  have h2: "newStateVariableDefinition (node ?sc) = Inr ?sv" by code_simp
  have h3: "getLastPrecedingTriviaWithKinds ?sc [SingleLineComment, MultiLineComment]
      = Inr (Some (xyComment 91))" by code_simp
  have h4: "matchFormula (triviaText (xyComment 91)) = Some ''x.y''" by code_simp
  have h5: "''x.y'' \<noteq> ''p.T''" by simp
  have n: "\<not> isStorageLocationName (variableName ?sv)" by code_simp
  from comment_checked_for_every_variable [OF h1 h2 h3 h4 h5, of "exampleEnv []" "[]"] n
  show ?thesis by auto
qed

text \<open>As stated, this fails on \<^verbatim>\<open>uint x;\<close> under the formula for \<^verbatim>\<open>x.y\<close>, in a contract
  whose expected id is \<^verbatim>\<open>p.T\<close>.\<close>

theorem comment_checked_only_for_storage_location_counterexample:
  "validateNamespaceCommentAndHash (exampleEnv []) ''p.T'' (cursorAt (commentedVariableContract, 0)) []
     = Inr [commentMismatchRecord (exampleEnv []) ''p.T'' (xyComment 91)]
   \<and> newStateVariableDefinition (node (firstStateVariable commentedVariableContract))
     = Inr \<lparr>typeName = ''uint'', attributes = [], variableName = ''x'', hasValue = False\<rparr>
   \<and> \<not> isStorageLocationName ''x''"
  by code_simp

subsection \<open>The engine\<close>

lemma validateContract_eq:
  assumes "\<not> isTerminal (node c)"
    and "isValid (parse E language ContractDefinition (unparse (node c)))"
    and "newContractDefinition (node c) = Inr contractDef"
    and "inferUpgradeable c contractDef = Inr upgradeable"
  shows "validateContract E language c ds =
     (if \<not> upgradeable then classifyVariables E c contractDef True ds
      else if length (structAnnotations c) = 1 then
        (case validateNamespaceCommentAndHash E (namespaceId (structAnnotations c ! 0)) c
                (annotationDiagnostics E c contractDef ds) of
           Inl e \<Rightarrow> Inl e
         | Inr ds' \<Rightarrow> classifyVariables E c contractDef False ds')
      else classifyVariables E c contractDef False (annotationDiagnostics E c contractDef ds))"
  using assms
  by (auto simp: validateContract_def Let_def validateNamespaceStructAnnotation_eq
      annotationDiagnostics_def classifyVariables_def split: sum.splits prod.splits)

text \<open>
  C4 (as amended). The specification has the annotation validator run whatever the
  classification; the engine runs it inside the test of the classification. For every contract definition
  that parses in isolation, the engine classifies upgradeability first. Only when the
  contract is classified upgradeable does it run the annotation validator, and after it the
  hash validator if and only if there is exactly one struct annotation, which is exactly when
  the annotation validator returns a namespace; then come the variable classifier and the
  contract-level check, with the diagnostics of the variables enabled. A contract that is not
  classified upgradeable gets neither validator: the engine goes straight to the variable
  classifier, with the diagnostics of the variables suppressed, and the contract-level check.
\<close>

theorem validators_run_only_for_upgradeable:
  assumes "\<not> isTerminal (node c)"
    and "isValid (parse E language ContractDefinition (unparse (node c)))"
    and "newContractDefinition (node c) = Inr contractDef"
    and "inferUpgradeable c contractDef = Inr upgradeable"
  shows "validateContract E language c ds =
     (if \<not> upgradeable then classifyVariables E c contractDef True ds
      else if length (structAnnotations c) = 1 then
        (case validateNamespaceCommentAndHash E (namespaceId (structAnnotations c ! 0)) c
                (annotationDiagnostics E c contractDef ds) of
           Inl e \<Rightarrow> Inl e
         | Inr ds' \<Rightarrow> classifyVariables E c contractDef False ds')
      else classifyVariables E c contractDef False (annotationDiagnostics E c contractDef ds))
    \<and> validateNamespaceStructAnnotation E c contractDef ds =
        Inr (if length (structAnnotations c) = 1 then Some (structAnnotations c ! 0) else None,
             annotationDiagnostics E c contractDef ds)"
  using validateContract_eq [OF assms, of ds]
  by (simp add: validateNamespaceStructAnnotation_eq annotationDiagnostics_def)

theorem validators_run_only_for_upgradeable_witness:
  "validateContract storageLocationEnv (0, 8, 20) (cursorAt (storageLocationContract, 0)) []
     = Inr [commentMismatchRecord storageLocationEnv ''p.T'' (xyComment 91),
            hashMismatchRecord storageLocationEnv (211, 215) ''0xx.y'']"
proof -
  let ?c = "cursorAt (storageLocationContract, 0)"
  have h1: "\<not> isTerminal (node ?c)" by code_simp
  have h2: "isValid (parse storageLocationEnv (0, 8, 20) ContractDefinition (unparse (node ?c)))"
    by code_simp
  have h3: "newContractDefinition (node ?c) = Inr contractT" by code_simp
  have h4: "inferUpgradeable ?c contractT = Inr True" by code_simp
  have a: "structAnnotations ?c = [annotationAt ''p.T'' 30]" by code_simp
  have d: "annotationDiagnostics storageLocationEnv ?c contractT [] = []" by code_simp
  have h: "validateNamespaceCommentAndHash storageLocationEnv ''p.T'' ?c []
     = Inr [commentMismatchRecord storageLocationEnv ''p.T'' (xyComment 91),
            hashMismatchRecord storageLocationEnv (211, 215) ''0xx.y'']" by code_simp
  have v: "classifyVariables storageLocationEnv ?c contractT False
      [commentMismatchRecord storageLocationEnv ''p.T'' (xyComment 91),
       hashMismatchRecord storageLocationEnv (211, 215) ''0xx.y'']
     = Inr [commentMismatchRecord storageLocationEnv ''p.T'' (xyComment 91),
            hashMismatchRecord storageLocationEnv (211, 215) ''0xx.y'']" by code_simp
  from validators_run_only_for_upgradeable [OF h1 h2 h3 h4, of "[]", THEN conjunct1] a d h v
  show ?thesis by (simp add: annotationAt_def)
qed

text \<open>As stated, this fails on \<^verbatim>\<open>contract T\<close> with one struct annotated \<^verbatim>\<open>erc7201:x.y\<close>: the
  contract is not classified upgradeable and the engine emits nothing, where the annotation
  validator, had it run, would have emitted a \<open>NamespaceIdMismatch\<close>.\<close>

theorem annotation_validator_irrespective_of_upgradeability_counterexample:
  "inferUpgradeable (cursorAt (plainAnnotatedContract, 0)) plainT = Inr False
   \<and> validateContract plainAnnotatedEnv (0, 8, 20) (cursorAt (plainAnnotatedContract, 0)) [] = Inr []
   \<and> validateNamespaceStructAnnotation plainAnnotatedEnv (cursorAt (plainAnnotatedContract, 0))
       plainT []
     = Inr (Some (annotationAt ''x.y'' 13),
            [mismatchDiagnostic plainAnnotatedEnv plainT (annotationAt ''x.y'' 13)])"
  by code_simp

subsection \<open>The contract-level diagnostic\<close>

lemma validateNamespaceableContract_eq:
  "validateNamespaceableContract E c ds nc =
     (if variables nc = [] then ds else ds @ [contractRecord E c nc])"
  by (simp add: validateNamespaceableContract_def Let_def addDiagnostic_def contractRecord_def)

lemma checkFormulaComment_appends:
  "\<exists>new. snd (snd (checkFormulaComment E i cm ds)) = ds @ new \<and> code ` set new \<subseteq> hashCodes"
  by (auto simp: checkFormulaComment_def addDiagnostic_def hashCodes_def split: option.splits)

lemma checkHashes_appends:
  assumes "checkHashes E i c2 t h f ds = Inr ds'"
  shows "\<exists>new. ds' = ds @ new \<and> code ` set new \<subseteq> hashCodes"
  using assms
  by (auto simp: checkHashes_def Let_def addDiagnostic_def hashCodes_def
      split: option.splits if_splits sum.splits)

lemma validateCommentAndHashOfVariable_appends:
  assumes "validateCommentAndHashOfVariable E i sc ds = Inr (c', ds')"
  shows "\<exists>new. ds' = ds @ new \<and> code ` set new \<subseteq> hashCodes"
proof -
  from assms obtain cm where cm:
    "getLastPrecedingTriviaWithKinds sc [SingleLineComment, MultiLineComment] = Inr cm"
    by (auto simp: validateCommentAndHashOfVariable_def split: sum.splits)
  obtain new1 where new1: "snd (snd (checkFormulaComment E i cm ds)) = ds @ new1"
    "code ` set new1 \<subseteq> hashCodes"
    using checkFormulaComment_appends by blast
  from assms cm have "ds' = ds @ new1 \<or>
    (\<exists>c2 t h f. checkHashes E i c2 t h f (ds @ new1) = Inr ds')"
    by (auto simp: validateCommentAndHashOfVariable_def Let_def new1(1)
        split: sum.splits if_splits)
  then show ?thesis
  proof
    assume "ds' = ds @ new1"
    with new1(2) show ?thesis by blast
  next
    assume "\<exists>c2 t h f. checkHashes E i c2 t h f (ds @ new1) = Inr ds'"
    then obtain new2 where "ds' = (ds @ new1) @ new2" "code ` set new2 \<subseteq> hashCodes"
      using checkHashes_appends by blast
    with new1(2) have "ds' = ds @ (new1 @ new2)" "code ` set (new1 @ new2) \<subseteq> hashCodes"
      by auto
    then show ?thesis by blast
  qed
qed

lemma validateNamespaceCommentAndHashLoop_appends:
  "validateNamespaceCommentAndHashLoop E i sc ds = Inr ds' \<Longrightarrow>
   \<exists>new. ds' = ds @ new \<and> code ` set new \<subseteq> hashCodes"
proof (induction E i sc ds rule: validateNamespaceCommentAndHashLoop.induct)
  case (1 E i sc ds)
  let ?r = "goToNextNonterminalWithKind StateVariableDefinition sc"
  show ?case
  proof (cases "fst ?r")
    case False
    with "1.prems" have "ds' = ds"
      by (subst (asm) validateNamespaceCommentAndHashLoop.simps) (simp add: Let_def)
    then show ?thesis by simp
  next
    case True
    with "1.prems" obtain c1 ds1 where
      step: "validateCommentAndHashOfVariable E i (snd ?r) ds = Inr (c1, ds1)"
      and rest: "validateNamespaceCommentAndHashLoop E i c1 ds1 = Inr ds'"
      by (subst (asm) validateNamespaceCommentAndHashLoop.simps)
        (auto simp: Let_def split: sum.splits)
    from validateCommentAndHashOfVariable_appends [OF step]
    obtain new1 where new1: "ds1 = ds @ new1" "code ` set new1 \<subseteq> hashCodes" by blast
    from "1.IH" [OF refl True step refl rest]
    obtain new2 where new2: "ds' = ds1 @ new2" "code ` set new2 \<subseteq> hashCodes" by blast
    from new1 new2 have "ds' = ds @ (new1 @ new2)" "code ` set (new1 @ new2) \<subseteq> hashCodes"
      by auto
    then show ?thesis by blast
  qed
qed

lemma validateNamespaceCommentAndHash_appends:
  "validateNamespaceCommentAndHash E i c ds = Inr ds' \<Longrightarrow>
   \<exists>new. ds' = ds @ new \<and> code ` set new \<subseteq> hashCodes"
  unfolding validateNamespaceCommentAndHash_def
  by (rule validateNamespaceCommentAndHashLoop_appends)

lemma annotationDiagnostics_appends:
  "\<exists>new. annotationDiagnostics E c cd ds = ds @ new \<and> code ` set new \<subseteq> annotationCodes"
  by (auto simp: annotationDiagnostics_def reportMultipleNamespaces_def
      foldl_duplicateDiagnostic foldl_multipleDiagnostic mismatchDiagnostics_def
      mismatchDiagnostic_def duplicateRecord_def multipleRecord_def annotationCodes_def)

lemma validateNamespaceableVariable_step:
  assumes "validateNamespaceableVariable E sc skip (ds, nc) = Inr (ds', nc')"
  shows "\<exists>stateVar new. reparsedVariable E (current sc) = Some stateVar
     \<and> ncName nc' = ncName nc
     \<and> map varName (variables nc') =
         map varName (variables nc) @ (if isNamespaceable stateVar then [variableName stateVar] else [])
     \<and> ds' = ds @ new \<and> code ` set new \<subseteq> variableCodes \<and> (skip \<longrightarrow> new = [])"
proof -
  from assms obtain stateVar where sv: "newStateVariableDefinition (tree (parse E
      (inferSolidityVersion E) StateVariableDefinition (trim (unparse (node sc))))) = Inr stateVar"
    by (auto simp: validateNamespaceableVariable_def Let_def split: sum.splits if_splits)
  then have re: "reparsedVariable E (current sc) = Some stateVar"
    by (simp add: reparsedVariable_def node_def)
  obtain ign repl g where al: "attributeLoop stateVar (attributes stateVar)
      (False, trim (unparse (node sc)), None) = (ign, repl, g)"
    by (cases "attributeLoop stateVar (attributes stateVar)
      (False, trim (unparse (node sc)), None)") auto
  with attributeLoop_ignore [of stateVar "attributes stateVar" False "trim (unparse (node sc))" None]
  have ign: "ign = list_ex isExcludingAttribute (attributes stateVar)" by simp
  from assms sv al ign show ?thesis
    by (intro exI [of _ stateVar])
      (auto simp: validateNamespaceableVariable_def Let_def re isNamespaceable_def
        addDiagnostic_def variableCodes_def split: sum.splits if_splits)
qed

lemma validateNamespaceableVariablesLoop_result:
  assumes "\<not> isCompleted sc"
    and "validateNamespaceableVariablesLoop E sc skip (ds, nc) = Inr (ds', nc')"
  shows "ncName nc' = ncName nc
     \<and> map varName (variables nc') = map varName (variables nc) @
         map variableName (filter isNamespaceable (List.map_filter (reparsedVariable E)
           (matchesAhead (isNonterminalWithKind StateVariableDefinition) sc)))
     \<and> (\<exists>new. ds' = ds @ new \<and> code ` set new \<subseteq> variableCodes \<and> (skip \<longrightarrow> new = []))"
  using assms
proof (induction "matchesAhead (isNonterminalWithKind StateVariableDefinition) sc"
    arbitrary: sc ds nc)
  case Nil
  from goToNextMatching_none [OF Nil.prems(1) Nil.hyps [symmetric]] Nil.prems(2)
  have "ds' = ds" "nc' = nc"
    by (subst (asm) validateNamespaceableVariablesLoop.simps;
        simp add: goToNextNonterminalWithKind_def)+
  with Nil.hyps [symmetric] show ?case by simp
next
  case (Cons e es)
  let ?P = "isNonterminalWithKind StateVariableDefinition"
  let ?r = "goToNextMatching ?P sc"
  from goToNextMatching_some [OF Cons.prems(1) Cons.hyps(2) [symmetric]]
  have r: "fst ?r" "current (snd ?r) = e" "matchesAhead ?P (snd ?r) = es"
    "\<not> isCompleted (snd ?r)" by simp_all
  from Cons.prems(2) r(1) obtain ds1 nc1 where
    step: "validateNamespaceableVariable E (snd ?r) skip (ds, nc) = Inr (ds1, nc1)"
    and rest: "validateNamespaceableVariablesLoop E (snd ?r) skip (ds1, nc1) = Inr (ds', nc')"
    by (subst (asm) validateNamespaceableVariablesLoop.simps)
      (auto simp: goToNextNonterminalWithKind_def Let_def split: sum.splits)
  from validateNamespaceableVariable_step [OF step] r(2)
  obtain stateVar new1 where s: "reparsedVariable E e = Some stateVar"
    "ncName nc1 = ncName nc"
    "map varName (variables nc1) =
       map varName (variables nc) @ (if isNamespaceable stateVar then [variableName stateVar] else [])"
    "ds1 = ds @ new1" "code ` set new1 \<subseteq> variableCodes" "skip \<longrightarrow> new1 = []"
    by auto
  from Cons.hyps(1) [OF r(3) [symmetric] r(4) rest] r(3)
  obtain new2 where t: "ncName nc' = ncName nc1"
    "map varName (variables nc') = map varName (variables nc1) @
       map variableName (filter isNamespaceable (List.map_filter (reparsedVariable E) es))"
    "ds' = ds1 @ new2" "code ` set new2 \<subseteq> variableCodes" "skip \<longrightarrow> new2 = []"
    by auto
  have "ds' = ds @ (new1 @ new2)" "code ` set (new1 @ new2) \<subseteq> variableCodes"
    "skip \<longrightarrow> new1 @ new2 = []"
    using s t by auto
  then have "\<exists>new. ds' = ds @ new \<and> code ` set new \<subseteq> variableCodes \<and> (skip \<longrightarrow> new = [])"
    by blast
  with s t Cons.hyps(2) [symmetric] show ?case
    by simp
qed

lemma classifyVariables_result:
  assumes "classifyVariables E c contractDef skip ds = Inr ds'"
  shows "\<exists>new nc. ds' = ds @ new @
           (if namespaceableVariables E c = [] then [] else [contractRecord E c nc])
     \<and> code ` set new \<subseteq> variableCodes \<and> (skip \<longrightarrow> new = [])
     \<and> ncName nc = contractName contractDef
     \<and> map varName (variables nc) = map variableName (namespaceableVariables E c)"
proof -
  from assms obtain ds1 nc where
    loop: "validateNamespaceableVariablesLoop E (spawn c) skip
             (ds, \<lparr>ncName = contractName contractDef, variables = []\<rparr>) = Inr (ds1, nc)"
    and fin: "ds' = validateNamespaceableContract E c ds1 nc"
    by (auto simp: classifyVariables_def validateNamespaceableVariables_def split: sum.splits)
  from validateNamespaceableVariablesLoop_result [OF spawn_not_completed loop]
  obtain new where n: "ncName nc = contractName contractDef"
    "map varName (variables nc) = map variableName (namespaceableVariables E c)"
    "ds1 = ds @ new" "code ` set new \<subseteq> variableCodes" "skip \<longrightarrow> new = []"
    by (auto simp: namespaceableVariables_def)
  from n(2) have "(variables nc = []) = (namespaceableVariables E c = [])"
    by (metis map_is_Nil_conv)
  with fin n show ?thesis
    by (intro exI [of _ new] exI [of _ nc]) (simp add: validateNamespaceableContract_eq)
qed

lemma contract_code_not_others:
  "CONTRACT_CAN_BE_NAMESPACED \<notin> annotationCodes"
  "CONTRACT_CAN_BE_NAMESPACED \<notin> hashCodes"
  "CONTRACT_CAN_BE_NAMESPACED \<notin> variableCodes"
  by (simp_all add: annotationCodes_def hashCodes_def variableCodes_def
      CONTRACT_CAN_BE_NAMESPACED_def NAMESPACE_ID_MISMATCH_def DUPLICATE_NAMESPACE_ID_def
      MULTIPLE_NAMESPACES_def NAMESPACE_ID_MISMATCH_HASH_COMMENT_def NAMESPACE_HASH_MISMATCH_def
      NAMESPACE_STANDALONE_HASH_MISMATCH_def VARIABLE_HAS_INITIAL_VALUE_def
      VARIABLE_CAN_BE_NAMESPACED_def)

lemma contract_diagnostics_shape:
  assumes "\<not> isTerminal (node c)"
    and "isValid (parse E language ContractDefinition (unparse (node c)))"
    and "newContractDefinition (node c) = Inr contractDef"
    and "inferUpgradeable c contractDef = Inr upgradeable"
    and "validateContract E language c ds = Inr ds'"
  shows "\<exists>others nc.
      ds' = ds @ others @ (if namespaceableVariables E c = [] then [] else [contractRecord E c nc])
    \<and> CONTRACT_CAN_BE_NAMESPACED \<notin> code ` set others
    \<and> (\<not> upgradeable \<longrightarrow> others = [])
    \<and> ncName nc = contractName contractDef
    \<and> map varName (variables nc) = map variableName (namespaceableVariables E c)"
proof -
  note eq = validateContract_eq [OF assms(1-4), of ds]
  obtain pre skip where pre: "classifyVariables E c contractDef skip (ds @ pre) = Inr ds'"
    "code ` set pre \<subseteq> annotationCodes \<union> hashCodes" "\<not> upgradeable \<longrightarrow> pre = [] \<and> skip"
  proof (cases upgradeable)
    case False
    with eq assms(5) have "classifyVariables E c contractDef True (ds @ []) = Inr ds'" by simp
    with False that [of True "[]"] show ?thesis by simp
  next
    case True
    obtain a where a: "annotationDiagnostics E c contractDef ds = ds @ a"
      "code ` set a \<subseteq> annotationCodes"
      using annotationDiagnostics_appends by blast
    show ?thesis
    proof (cases "length (structAnnotations c) = 1")
      case False
      with True eq assms(5) a have "classifyVariables E c contractDef False (ds @ a) = Inr ds'"
        by simp
      with a(2) True that [of False a] show ?thesis by auto
    next
      case one: True
      with True eq assms(5) a obtain ds2 where
        h: "validateNamespaceCommentAndHash E (namespaceId (structAnnotations c ! 0)) c (ds @ a)
              = Inr ds2"
        and v: "classifyVariables E c contractDef False ds2 = Inr ds'"
        by (auto split: sum.splits)
      from validateNamespaceCommentAndHash_appends [OF h]
      obtain b where b: "ds2 = (ds @ a) @ b" "code ` set b \<subseteq> hashCodes" by blast
      with v a(2) have "classifyVariables E c contractDef False (ds @ (a @ b)) = Inr ds'"
        "code ` set (a @ b) \<subseteq> annotationCodes \<union> hashCodes" by auto
      with True that [of False "a @ b"] show ?thesis by auto
    qed
  qed
  from classifyVariables_result [OF pre(1)]
  obtain new nc where n:
    "ds' = (ds @ pre) @ new @
       (if namespaceableVariables E c = [] then [] else [contractRecord E c nc])"
    "code ` set new \<subseteq> variableCodes" "skip \<longrightarrow> new = []"
    "ncName nc = contractName contractDef"
    "map varName (variables nc) = map variableName (namespaceableVariables E c)"
    by blast
  have "CONTRACT_CAN_BE_NAMESPACED \<notin> code ` set (pre @ new)"
    using pre(2) n(2) contract_code_not_others by auto
  moreover have "\<not> upgradeable \<longrightarrow> pre @ new = []"
    using pre(3) n(3) by simp
  moreover have "ds' = ds @ (pre @ new) @
       (if namespaceableVariables E c = [] then [] else [contractRecord E c nc])"
    using n(1) by simp
  ultimately show ?thesis using n(4,5) by blast
qed

text \<open>The turn of the engine on a contract returns when the typed views it reads can be
  read.\<close>

lemma seekNext_Some_set:
  "seekNext P bs cur xs = Some (bs', x, xs') \<Longrightarrow> set xs' \<subseteq> set xs"
proof (induction xs arbitrary: bs cur)
  case Nil
  then show ?case by simp
next
  case (Cons y ys)
  show ?case
  proof (cases "P (fst y)")
    case True
    with Cons.prems show ?thesis by auto
  next
    case False
    with Cons.prems have "seekNext P (cur # bs) y ys = Some (bs', x, xs')" by simp
    from Cons.IH [OF this] show ?thesis by auto
  qed
qed

lemma goToNextMatching_ahead:
  "isCompleted (snd (goToNextMatching P c))
   \<or> set (ahead (snd (goToNextMatching P c))) \<subseteq> set (ahead c)"
  by (auto simp: goToNextMatching_def complete_def split: option.splits
      dest!: seekNext_Some_set)

lemma matchesAhead_mono:
  "set (ahead c') \<subseteq> set (ahead c) \<Longrightarrow> set (matchesAhead P c') \<subseteq> set (matchesAhead P c)"
  by (auto simp: matchesAhead_def)

lemma constantCursor_ahead:
  "isCompleted (constantCursor sc) \<or> set (ahead (constantCursor sc)) \<subseteq> set (ahead sc)"
proof -
  let ?c1 = "snd (goToNextNonterminalWithKind StateVariableDefinitionValue sc)"
  have 1: "isCompleted ?c1 \<or> set (ahead ?c1) \<subseteq> set (ahead sc)"
    unfolding goToNextNonterminalWithKind_def by (rule goToNextMatching_ahead)
  have 2: "isCompleted (constantCursor sc) \<or> set (ahead (constantCursor sc)) \<subseteq> set (ahead ?c1)"
    unfolding goToNextNonterminalWithKind_def constantCursor_def by (rule goToNextMatching_ahead)
  have 3: "isCompleted ?c1 \<Longrightarrow> isCompleted (constantCursor sc)"
    by (simp add: constantCursor_def goToNextNonterminalWithKind_def goToNextMatching_def)
  from 1 2 3 show ?thesis by blast
qed

lemma checkHashes_total:
  assumes "\<not> isTerminal (node c2)"
  shows "\<exists>ds'. checkHashes E i c2 t h f ds = Inr ds'"
proof -
  from assms obtain r where "getTrimmedRange c2 = Inr r"
    using getTrimmedRange_nonterminal by blast
  then show ?thesis
    by (auto simp: checkHashes_def Let_def split: option.splits)
qed

lemma validateCommentAndHashOfVariable_total:
  assumes "\<not> isTerminal (node sc)" and "newStateVariableDefinition (node sc) = Inr stateVar"
  shows "\<exists>c' ds'. validateCommentAndHashOfVariable E i sc ds = Inr (c', ds')
           \<and> (c' = sc \<or> c' = constantCursor sc)"
proof -
  obtain cm where cm:
    "getLastPrecedingTriviaWithKinds sc [SingleLineComment, MultiLineComment] = Inr cm"
    using getLastPrecedingTriviaWithKinds_total [of "[SingleLineComment, MultiLineComment]" sc]
    by auto
  show ?thesis
  proof (cases "isStorageLocationName (variableName stateVar)
      \<and> \<not> isTerminal (node (constantCursor sc))")
    case False
    with assms cm show ?thesis
      by (auto simp: validateCommentAndHashOfVariable_def Let_def
          constantCursor_def [symmetric])
  next
    case True
    then obtain ds' where "checkHashes E i (constantCursor sc)
        (unparse (node (constantCursor sc))) (fst (checkFormulaComment E i cm ds))
        (fst (snd (checkFormulaComment E i cm ds))) (snd (snd (checkFormulaComment E i cm ds)))
        = Inr ds'"
      using checkHashes_total by blast
    with True assms cm show ?thesis
      by (simp add: validateCommentAndHashOfVariable_def Let_def
          constantCursor_def [symmetric])
  qed
qed

lemma validateNamespaceCommentAndHashLoop_total:
  "isCompleted sc \<or> (\<forall>e \<in> set (matchesAhead (isNonterminalWithKind StateVariableDefinition) sc).
       \<exists>stateVar. newStateVariableDefinition (fst e) = Inr stateVar) \<Longrightarrow>
   \<exists>ds'. validateNamespaceCommentAndHashLoop E i sc ds = Inr ds'"
proof (induction E i sc ds rule: validateNamespaceCommentAndHashLoop.induct)
  case (1 E i sc ds)
  let ?P = "isNonterminalWithKind StateVariableDefinition"
  let ?r = "goToNextNonterminalWithKind StateVariableDefinition sc"
  show ?case
  proof (cases "fst ?r")
    case False
    then show ?thesis
      by (subst validateNamespaceCommentAndHashLoop.simps) (simp add: Let_def)
  next
    case True
    then have nc: "\<not> isCompleted sc"
      by (auto simp: goToNextNonterminalWithKind_def goToNextMatching_def)
    with "1.prems" have views: "\<forall>e \<in> set (matchesAhead ?P sc).
       \<exists>stateVar. newStateVariableDefinition (fst e) = Inr stateVar" by simp
    from True nc obtain e es where ees: "matchesAhead ?P sc = e # es"
      using goToNextMatching_none [of sc ?P]
      by (cases "matchesAhead ?P sc") (auto simp: goToNextNonterminalWithKind_def)
    from goToNextMatching_some [OF nc ees]
    have r: "current (snd ?r) = e" "matchesAhead ?P (snd ?r) = es" "\<not> isCompleted (snd ?r)"
      by (simp_all add: goToNextNonterminalWithKind_def)
    from ees have "e \<in> set (matchesAhead ?P sc)" by simp
    then have "?P (fst e)" by (rule matchesAhead_P)
    then have nt: "\<not> isTerminal (node (snd ?r))"
      using r(1) by (simp add: node_def isNonterminalWithKind_not_terminal)
    from views ees r(1) obtain stateVar where
      sv: "newStateVariableDefinition (node (snd ?r)) = Inr stateVar"
      by (auto simp: node_def)
    from validateCommentAndHashOfVariable_total [OF nt sv]
    obtain c' ds1 where step: "validateCommentAndHashOfVariable E i (snd ?r) ds = Inr (c', ds1)"
      and c': "c' = snd ?r \<or> c' = constantCursor (snd ?r)" by blast
    have "isCompleted c' \<or> set (ahead c') \<subseteq> set (ahead (snd ?r))"
      using c' constantCursor_ahead [of "snd ?r"] by auto
    then have "isCompleted c' \<or> set (matchesAhead ?P c') \<subseteq> set es"
      using matchesAhead_mono [of c' "snd ?r" ?P] r(2) by auto
    with views ees have "isCompleted c' \<or> (\<forall>e \<in> set (matchesAhead ?P c').
       \<exists>stateVar. newStateVariableDefinition (fst e) = Inr stateVar)"
      by auto
    from "1.IH" [OF refl True step refl this]
    obtain ds' where "validateNamespaceCommentAndHashLoop E i c' ds1 = Inr ds'" by blast
    with True step show ?thesis
      by (subst validateNamespaceCommentAndHashLoop.simps) (simp add: Let_def)
  qed
qed

lemma validateNamespaceableVariable_total:
  assumes "\<not> isTerminal (node sc)" and "reparsedVariable E (current sc) \<noteq> None"
  shows "\<exists>st'. validateNamespaceableVariable E sc skip st = Inr st'"
proof -
  from assms(1) obtain r where "getTrimmedRange sc = Inr r"
    using getTrimmedRange_nonterminal by blast
  moreover from assms(2) obtain stateVar where "newStateVariableDefinition (tree (parse E
      (inferSolidityVersion E) StateVariableDefinition (trim (unparse (node sc))))) = Inr stateVar"
    by (auto simp: reparsedVariable_def node_def split: sum.splits)
  ultimately show ?thesis using assms(1)
    by (simp add: validateNamespaceableVariable_def Let_def)
qed

lemma validateNamespaceableVariablesLoop_total:
  assumes "\<not> isCompleted sc"
    and "\<forall>e \<in> set (matchesAhead (isNonterminalWithKind StateVariableDefinition) sc).
           reparsedVariable E e \<noteq> None"
  shows "\<exists>st'. validateNamespaceableVariablesLoop E sc skip st = Inr st'"
  using assms
proof (induction "matchesAhead (isNonterminalWithKind StateVariableDefinition) sc"
    arbitrary: sc st)
  case Nil
  from goToNextMatching_none [OF Nil.prems(1) Nil.hyps [symmetric]]
  show ?case
    by (subst validateNamespaceableVariablesLoop.simps)
      (simp add: goToNextNonterminalWithKind_def)
next
  case (Cons e es)
  let ?P = "isNonterminalWithKind StateVariableDefinition"
  let ?r = "goToNextMatching ?P sc"
  from goToNextMatching_some [OF Cons.prems(1) Cons.hyps(2) [symmetric]]
  have r: "fst ?r" "current (snd ?r) = e" "matchesAhead ?P (snd ?r) = es"
    "\<not> isCompleted (snd ?r)" by simp_all
  have "e \<in> set (matchesAhead ?P sc)" using Cons.hyps(2) [symmetric] by simp
  then have nt: "\<not> isTerminal (node (snd ?r))" and re: "reparsedVariable E (current (snd ?r)) \<noteq> None"
    using r(2) Cons.prems(2)
    by (auto simp: node_def dest: matchesAhead_P isNonterminalWithKind_not_terminal)
  from validateNamespaceableVariable_total [OF nt re]
  obtain st1 where step: "validateNamespaceableVariable E (snd ?r) skip st = Inr st1" by blast
  have "\<forall>e \<in> set (matchesAhead ?P (snd ?r)). reparsedVariable E e \<noteq> None"
    using Cons.prems(2) Cons.hyps(2) [symmetric] r(3) by simp
  from Cons.hyps(1) [OF r(3) [symmetric] r(4) this]
  obtain st' where "validateNamespaceableVariablesLoop E (snd ?r) skip st1 = Inr st'" by blast
  with r(1) step show ?case
    by (subst validateNamespaceableVariablesLoop.simps)
      (simp add: goToNextNonterminalWithKind_def Let_def)
qed

lemma classifyVariables_total:
  assumes "\<forall>e \<in> set (matchesAhead (isNonterminalWithKind StateVariableDefinition) (spawn c)).
             reparsedVariable E e \<noteq> None"
  shows "\<exists>ds'. classifyVariables E c contractDef skip ds = Inr ds'"
proof -
  from validateNamespaceableVariablesLoop_total [OF spawn_not_completed assms]
  obtain st' where "validateNamespaceableVariablesLoop E (spawn c) skip
      (ds, \<lparr>ncName = contractName contractDef, variables = []\<rparr>) = Inr st'" by blast
  then show ?thesis
    by (cases st') (simp add: classifyVariables_def validateNamespaceableVariables_def)
qed

lemma validateContract_total:
  assumes "\<not> isTerminal (node c)"
    and "isValid (parse E language ContractDefinition (unparse (node c)))"
    and "newContractDefinition (node c) = Inr contractDef"
    and "inferUpgradeable c contractDef = Inr upgradeable"
    and "\<forall>e \<in> set (matchesAhead (isNonterminalWithKind StateVariableDefinition) (spawn c)).
           (\<exists>stateVar. newStateVariableDefinition (fst e) = Inr stateVar)
           \<and> reparsedVariable E e \<noteq> None"
  shows "\<exists>ds'. validateContract E language c ds = Inr ds'"
proof -
  from assms(5) have v: "\<exists>ds'. classifyVariables E c contractDef skip ds0 = Inr ds'" for skip ds0
    by (intro classifyVariables_total) simp
  from assms(5) have h: "\<exists>ds'. validateNamespaceCommentAndHash E i c ds0 = Inr ds'" for i ds0
    unfolding validateNamespaceCommentAndHash_def
    by (intro validateNamespaceCommentAndHashLoop_total) simp
  note eq = validateContract_eq [OF assms(1-4), of ds]
  show ?thesis
  proof (cases "upgradeable \<and> length (structAnnotations c) = 1")
    case False
    with eq v [of True ds] v [of False "annotationDiagnostics E c contractDef ds"]
    show ?thesis by auto
  next
    case True
    from h obtain ds1 where ds1: "validateNamespaceCommentAndHash E
        (namespaceId (structAnnotations c ! 0)) c (annotationDiagnostics E c contractDef ds)
        = Inr ds1" by blast
    with True eq v [of False ds1] show ?thesis by simp
  qed
qed

lemma validateContract_returns:
  assumes "\<not> isTerminal (node c)"
    and "isValid (parse E language ContractDefinition (unparse (node c)))"
    and "newContractDefinition (node c) = Inr contractDef"
    and "inferUpgradeable c contractDef = Inr upgradeable"
    and "stateVariablesReadable E c"
  shows "\<exists>ds'. validateContract E language c ds = Inr ds'"
proof (rule validateContract_total [OF assms(1-4)])
  show "\<forall>e \<in> set (matchesAhead (isNonterminalWithKind StateVariableDefinition) (spawn c)).
           (\<exists>stateVar. newStateVariableDefinition (fst e) = Inr stateVar)
           \<and> reparsedVariable E e \<noteq> None"
  proof
    fix e
    assume "e \<in> set (matchesAhead (isNonterminalWithKind StateVariableDefinition) (spawn c))"
    with assms(5) have "\<not> isl (newStateVariableDefinition (fst e))"
      "reparsedVariable E e \<noteq> None"
      by (auto simp: stateVariablesReadable_def)
    then show "(\<exists>stateVar. newStateVariableDefinition (fst e) = Inr stateVar)
           \<and> reparsedVariable E e \<noteq> None"
      by (cases "newStateVariableDefinition (fst e)") auto
  qed
qed



subsection \<open>The upgradeability classifier\<close>

lemma hasAuthorizeUpgrade_matches:
  assumes "\<not> isCompleted fc"
    and "\<forall>e \<in> set (matchesAhead (isNonterminalWithKind FunctionDefinition) fc).
           \<exists>f. newFunctionDefinition (fst e) = Inr f"
  shows "hasAuthorizeUpgrade fc =
     Inr (\<exists>e \<in> set (matchesAhead (isNonterminalWithKind FunctionDefinition) fc).
            \<exists>f. newFunctionDefinition (fst e) = Inr f \<and> isAuthorizeUpgrade f)"
  using assms
proof (induction "matchesAhead (isNonterminalWithKind FunctionDefinition) fc" arbitrary: fc)
  case Nil
  from goToNextMatching_none [OF Nil.prems(1) Nil.hyps [symmetric]] Nil.hyps [symmetric]
  show ?case
    by (subst hasAuthorizeUpgrade.simps) (simp add: goToNextNonterminalWithKind_def)
next
  case (Cons e es)
  let ?r = "goToNextMatching (isNonterminalWithKind FunctionDefinition) fc"
  from goToNextMatching_some [OF Cons.prems(1) Cons.hyps(2) [symmetric]]
  have r: "fst ?r" "current (snd ?r) = e"
    "matchesAhead (isNonterminalWithKind FunctionDefinition) (snd ?r) = es"
    "\<not> isCompleted (snd ?r)" by simp_all
  have "e \<in> set (matchesAhead (isNonterminalWithKind FunctionDefinition) fc)"
    using Cons.hyps(2) [symmetric] by simp
  then have nt: "\<not> isTerminal (fst e)"
    by (auto dest: matchesAhead_P isNonterminalWithKind_not_terminal)
  from Cons.prems(2) Cons.hyps(2) [symmetric] obtain f where f: "newFunctionDefinition (fst e) = Inr f"
    by auto
  have IH: "hasAuthorizeUpgrade (snd ?r) =
     Inr (\<exists>e \<in> set es. \<exists>f. newFunctionDefinition (fst e) = Inr f \<and> isAuthorizeUpgrade f)"
    using Cons.hyps(1) [OF r(3) [symmetric] r(4)] Cons.prems(2) Cons.hyps(2) [symmetric] r(3)
    by simp
  show ?case
    using r(1,2) nt f IH Cons.hyps(2) [symmetric]
    by (subst hasAuthorizeUpgrade.simps)
      (auto simp: goToNextNonterminalWithKind_def node_def Let_def)
qed

lemma isAuthorizeUpgrade_iff:
  "isAuthorizeUpgrade f =
     (functionName f = ''_authorizeUpgrade'' \<and> parameterTypeNames f = [''address''])"
  by (cases "parameterTypeNames f") (auto simp: isAuthorizeUpgrade_def)

text \<open>For a contract that satisfies neither the inheritance heuristics nor the
  documentation-comment heuristic, the classifier returns true if and only if the contract
  defines a function named \<open>_authorizeUpgrade\<close> whose parameters are exactly one parameter
  whose type has the text \<open>address\<close>, as the typed view unparses it, with the trivia in front
  of it. In particular, when no function of the contract has exactly that parameter list
  (the type was changed to anything else, \<open>address payable\<close> included), the classification
  is false.\<close>

lemma authorizeUpgrade_heuristic:
  assumes "\<not> inherits contractDef ''Initializable''"
    and "\<not> inherits contractDef ''UUPSUpgradeable''"
    and "hasUpgradesAnnotation c = Inr False"
    and "\<forall>n \<in> set (contractFunctions c). \<exists>f. newFunctionDefinition n = Inr f"
  shows "inferUpgradeable c contractDef =
     Inr (\<exists>n \<in> set (contractFunctions c). \<exists>f. newFunctionDefinition n = Inr f
            \<and> functionName f = ''_authorizeUpgrade'' \<and> parameterTypeNames f = [''address''])
   \<and> ((\<forall>n \<in> set (contractFunctions c). \<forall>f. newFunctionDefinition n = Inr f
            \<longrightarrow> parameterTypeNames f \<noteq> [''address''])
        \<longrightarrow> inferUpgradeable c contractDef = Inr False)"
proof -
  from assms(4) have "hasAuthorizeUpgrade (spawn c) =
     Inr (\<exists>e \<in> set (matchesAhead (isNonterminalWithKind FunctionDefinition) (spawn c)).
            \<exists>f. newFunctionDefinition (fst e) = Inr f \<and> isAuthorizeUpgrade f)"
    by (intro hasAuthorizeUpgrade_matches) (auto simp: contractFunctions_def)
  with assms(1-3) show ?thesis
    by (auto simp: inferUpgradeable_def contractFunctions_def isAuthorizeUpgrade_iff
        split: sum.splits bool.splits)
qed

lemma authorizeUpgrade_heuristic_examples:
  "inferUpgradeable (cursorAt (addressContract, 0)) \<lparr>contractName = ''A'', inheritance = None\<rparr>
     = Inr True
   \<and> inferUpgradeable (cursorAt (addressPayableContract, 0))
       \<lparr>contractName = ''A'', inheritance = None\<rparr> = Inr False"
proof -
  let ?A = "\<lparr>contractName = ''A'', inheritance = None\<rparr>"
  have i: "\<not> inherits ?A ''Initializable''" "\<not> inherits ?A ''UUPSUpgradeable''"
    by (simp_all add: inherits_def)
  have a1: "hasUpgradesAnnotation (cursorAt (addressContract, 0)) = Inr False"
    by code_simp
  have f1: "contractFunctions (cursorAt (addressContract, 0))
      = [authorizeUpgradeFunction [terminal ''AddressKeyword'' ''address'']]"
    by code_simp
  have a2: "hasUpgradesAnnotation (cursorAt (addressPayableContract, 0)) = Inr False"
    by code_simp
  have f2: "contractFunctions (cursorAt (addressPayableContract, 0))
      = [authorizeUpgradeFunction
          [terminal ''AddressKeyword'' ''address'', ws, terminal ''PayableKeyword'' ''payable'']]"
    by code_simp
  have "inferUpgradeable (cursorAt (addressContract, 0)) ?A = Inr True"
    using authorizeUpgrade_heuristic [OF i a1, THEN conjunct1] f1
    by (simp add: authorizeUpgradeFunction_def terminal_def)
  moreover have "inferUpgradeable (cursorAt (addressPayableContract, 0)) ?A = Inr False"
    using authorizeUpgrade_heuristic [OF i a2, THEN conjunct1] f2
    by (simp add: authorizeUpgradeFunction_def terminal_def ws_def)
  ultimately show ?thesis by simp
qed

text \<open>
  C7. The specification has the contract classified by the normalized text of the type of
  the parameter, and the classifier is documented as looking for a function
  \<^verbatim>\<open>_authorizeUpgrade(address)\<close>; it compares the text of the type as it is unparsed, which
  the variable classifier and the version helper trim before use and this comparison does
  not. On \<^verbatim>\<open>contract A { function _authorizeUpgrade( address a) {} }\<close>, where a space stands
  in front of the type, the text of the type is \<^verbatim>\<open> address\<close>, which is \<^verbatim>\<open>address\<close> once
  trimmed, and the contract is not classified upgradeable; without the space it is.
\<close>

theorem authorizeUpgrade_behind_space_not_recognised:
  "contractFunctions (cursorAt (spacedAddressContract, 0))
     = [authorizeUpgradeFunction [ws, terminal ''AddressKeyword'' ''address'']]
   \<and> newFunctionDefinition (authorizeUpgradeFunction [ws, terminal ''AddressKeyword'' ''address''])
     = Inr \<lparr>functionName = ''_authorizeUpgrade'', parameterTypeNames = ['' address'']\<rparr>
   \<and> trim '' address'' = ''address''
   \<and> inferUpgradeable (cursorAt (spacedAddressContract, 0))
        \<lparr>contractName = ''A'', inheritance = None\<rparr> = Inr False
   \<and> inferUpgradeable (cursorAt (addressContract, 0))
        \<lparr>contractName = ''A'', inheritance = None\<rparr> = Inr True"
  by code_simp
subsection \<open>Fragments that do not parse\<close>

text \<open>A contract that does not parse in isolation is skipped: the turn of the engine on it
  adds no diagnostic and the loop goes on.\<close>

lemma invalid_contract_skipped:
  assumes "isNonterminalWithKind ContractDefinition (node c)"
    and "\<not> isValid (parse E language ContractDefinition (unparse (node c)))"
  shows "validateContract E language c ds = Inr ds"
  using assms by (cases "node c") (auto simp: validateContract_def Let_def)

lemma invalid_contract_skipped_in_loop:
  assumes "fst (goToNextNonterminalWithKind ContractDefinition c)"
    and "\<not> isValid (parse E language ContractDefinition
           (unparse (node (snd (goToNextNonterminalWithKind ContractDefinition c)))))"
  shows "validateNamespacesLoop E language c ds =
     validateNamespacesLoop E language (snd (goToNextNonterminalWithKind ContractDefinition c)) ds"
proof -
  let ?r = "goToNextNonterminalWithKind ContractDefinition c"
  from assms(1) have nc: "\<not> isCompleted c"
    by (auto simp: goToNextNonterminalWithKind_def goToNextMatching_def)
  from assms(1) nc obtain e es where
    ees: "matchesAhead (isNonterminalWithKind ContractDefinition) c = e # es"
    using goToNextMatching_none [of c "isNonterminalWithKind ContractDefinition"]
    by (cases "matchesAhead (isNonterminalWithKind ContractDefinition) c")
      (auto simp: goToNextNonterminalWithKind_def)
  from goToNextMatching_some [OF nc ees] have "current (snd ?r) = e"
    by (simp add: goToNextNonterminalWithKind_def)
  moreover have "e \<in> set (matchesAhead (isNonterminalWithKind ContractDefinition) c)"
    using ees by simp
  then have "isNonterminalWithKind ContractDefinition (fst e)"
    by (rule matchesAhead_P)
  ultimately have "isNonterminalWithKind ContractDefinition (node (snd ?r))"
    by (simp add: node_def)
  from invalid_contract_skipped [OF this assms(2)] assms(1) show ?thesis
    by (subst validateNamespacesLoop.simps) (simp add: Let_def)
qed

text \<open>The validity of the parse of a state variable in isolation is never read.\<close>

lemma variable_validity_not_consulted:
  "validateNamespaceableVariable
     (E\<lparr>parse := (\<lambda>v kind text. (parse E v kind text)\<lparr>isValid := b\<rparr>)\<rparr>) c skip st
   = validateNamespaceableVariable E c skip st"
  by (simp add: validateNamespaceableVariable_def slangToVSCodeRange_def Let_def
      cong: sum.case_cong if_cong)

text \<open>The engine returns when the typed views of every contract that parses in isolation can
  be read.\<close>

lemma inferUpgradeable_total:
  assumes "\<forall>n \<in> set (contractFunctions c). \<not> isl (newFunctionDefinition n)"
  shows "\<exists>u. inferUpgradeable c contractDef = Inr u"
proof -
  have "\<forall>e \<in> set (matchesAhead (isNonterminalWithKind FunctionDefinition) (spawn c)).
           \<exists>f. newFunctionDefinition (fst e) = Inr f"
  proof
    fix e
    assume "e \<in> set (matchesAhead (isNonterminalWithKind FunctionDefinition) (spawn c))"
    with assms have "\<not> isl (newFunctionDefinition (fst e))"
      by (auto simp: contractFunctions_def)
    then show "\<exists>f. newFunctionDefinition (fst e) = Inr f"
      by (cases "newFunctionDefinition (fst e)") auto
  qed
  from hasAuthorizeUpgrade_matches [OF spawn_not_completed this]
  obtain b where b: "hasAuthorizeUpgrade (spawn c) = Inr b" by blast
  from getNatSpec_total [of c] obtain r where "getNatSpec c = Inr r" by blast
  then obtain a where "hasUpgradesAnnotation c = Inr a"
    by (cases r) (auto simp: hasUpgradesAnnotation_def Let_def)
  with b show ?thesis
    by (cases b) (auto simp: inferUpgradeable_def Let_def)
qed

lemma validateContract_readable:
  assumes "isNonterminalWithKind ContractDefinition (node c)"
    and "isValid (parse E language ContractDefinition (unparse (node c)))
           \<longrightarrow> typedViewsReadable E c"
  shows "\<exists>ds'. validateContract E language c ds = Inr ds'"
proof (cases "isValid (parse E language ContractDefinition (unparse (node c)))")
  case False
  with invalid_contract_skipped [OF assms(1)] show ?thesis by blast
next
  case True
  with assms(2) have r: "typedViewsReadable E c" by simp
  from assms(1) have nt: "\<not> isTerminal (node c)"
    by (rule isNonterminalWithKind_not_terminal)
  from r obtain contractDef where cd: "newContractDefinition (node c) = Inr contractDef"
    by (cases "newContractDefinition (node c)") (auto simp: typedViewsReadable_def)
  from r have "\<forall>n \<in> set (contractFunctions c). \<not> isl (newFunctionDefinition n)"
    by (simp add: typedViewsReadable_def)
  from inferUpgradeable_total [OF this] obtain u where u: "inferUpgradeable c contractDef = Inr u"
    by blast
  from r have "stateVariablesReadable E c" by (simp add: typedViewsReadable_def)
  from validateContract_returns [OF nt True cd u this] show ?thesis .
qed

lemma typedViewsReadable_current:
  "typedViewsReadable E (cursorAt (current c)) = typedViewsReadable E c"
  by (simp add: typedViewsReadable_def contractFunctions_def stateVariablesReadable_def
      spawn_def node_def cursorAt_def)

lemma validateNamespacesLoop_total:
  assumes "\<not> isCompleted c" and "contractsReadable E language c"
  shows "\<exists>ds'. validateNamespacesLoop E language c ds = Inr ds'"
  using assms
proof (induction "matchesAhead (isNonterminalWithKind ContractDefinition) c" arbitrary: c ds)
  case Nil
  from goToNextMatching_none [OF Nil.prems(1) Nil.hyps [symmetric]] show ?case
    by (subst validateNamespacesLoop.simps) (simp add: goToNextNonterminalWithKind_def)
next
  case (Cons e es)
  let ?r = "goToNextMatching (isNonterminalWithKind ContractDefinition) c"
  from goToNextMatching_some [OF Cons.prems(1) Cons.hyps(2) [symmetric]]
  have r: "fst ?r" "current (snd ?r) = e"
    "matchesAhead (isNonterminalWithKind ContractDefinition) (snd ?r) = es"
    "\<not> isCompleted (snd ?r)" by simp_all
  have mem: "e \<in> set (matchesAhead (isNonterminalWithKind ContractDefinition) c)"
    using Cons.hyps(2) [symmetric] by simp
  then have k: "isNonterminalWithKind ContractDefinition (node (snd ?r))"
    using r(2) by (auto simp: node_def dest: matchesAhead_P)
  from Cons.prems(2) mem
  have "isValid (parse E language ContractDefinition (unparse (fst e)))
          \<longrightarrow> typedViewsReadable E (cursorAt e)"
    by (simp add: contractsReadable_def)
  with r(2) have "isValid (parse E language ContractDefinition (unparse (node (snd ?r))))
          \<longrightarrow> typedViewsReadable E (snd ?r)"
    using typedViewsReadable_current [of E "snd ?r"] by (simp add: node_def)
  from validateContract_readable [OF k this] obtain ds1 where
    ds1: "validateContract E language (snd ?r) ds = Inr ds1" by blast
  have "contractsReadable E language (snd ?r)"
    using Cons.prems(2) r(3) Cons.hyps(2) [symmetric] by (simp add: contractsReadable_def)
  from Cons.hyps(1) [OF r(3) [symmetric] r(4) this] obtain ds' where
    "validateNamespacesLoop E language (snd ?r) ds1 = Inr ds'" by blast
  with r(1) ds1 show ?case
    by (subst validateNamespacesLoop.simps) (simp add: goToNextNonterminalWithKind_def)
qed

lemma validateNamespaces_total:
  assumes "contractsReadable E language (createTreeCursor (tree parseOutput))"
  shows "\<exists>ds'. validateNamespaces E parseOutput language ds = Inr ds'"
  unfolding validateNamespaces_def
  by (rule validateNamespacesLoop_total [OF _ assms]) (simp add: createTreeCursor_def cursorAt_def)




subsection \<open>The version inference helper\<close>

lemma compareSemVer_less: "(compareSemVer a b = -1) = (a < b)"
  by (cases a; cases b) (auto simp: compareIdentifiers_def less_prod_def)

lemma maxSatisfyingLoop_Some:
  "\<exists>x. maxSatisfyingLoop test vs (Some m) = Some x
       \<and> x \<in> insert m (set (filter test vs))
       \<and> (\<forall>y \<in> insert m (set (filter test vs)). y \<le> x)"
proof (induction vs arbitrary: m)
  case Nil
  show ?case by simp
next
  case (Cons v vs)
  show ?case
  proof (cases "test v \<and> m < v")
    case True
    from Cons.IH [of v] obtain x where x: "maxSatisfyingLoop test vs (Some v) = Some x"
      "x \<in> insert v (set (filter test vs))" "\<forall>y \<in> insert v (set (filter test vs)). y \<le> x"
      by blast
    from x(3) True have "m \<le> x" by force
    with x True show ?thesis
      by (intro exI [of _ x]) (simp add: compareSemVer_less)
  next
    case False
    from Cons.IH [of m] obtain x where x: "maxSatisfyingLoop test vs (Some m) = Some x"
      "x \<in> insert m (set (filter test vs))" "\<forall>y \<in> insert m (set (filter test vs)). y \<le> x"
      by blast
    from x(3) have "m \<le> x" by simp
    with False have "test v \<Longrightarrow> v \<le> x" by force
    with x False show ?thesis
      by (intro exI [of _ x]) (auto simp add: compareSemVer_less simp del: split_paired_All)
  qed
qed

lemma maxSatisfyingLoop_Some_Max:
  "maxSatisfyingLoop test vs (Some m) = Some (Max (insert m (set (filter test vs))))"
proof -
  obtain x where x: "maxSatisfyingLoop test vs (Some m) = Some x"
      "x \<in> insert m (set (filter test vs))" "\<forall>y \<in> insert m (set (filter test vs)). y \<le> x"
    using maxSatisfyingLoop_Some by blast
  have "Max (insert m (set (filter test vs))) = x"
  proof (rule Max_eqI)
    show "finite (insert m (set (filter test vs)))" by simp
    show "y \<le> x" if "y \<in> insert m (set (filter test vs))" for y
      using x(3) that by blast
    show "x \<in> insert m (set (filter test vs))" by (rule x(2))
  qed
  with x(1) show ?thesis by simp
qed

lemma maxSatisfyingLoop_None:
  "maxSatisfyingLoop test vs None =
     (if filter test vs = [] then None else Some (Max (set (filter test vs))))"
proof (induction vs)
  case Nil
  show ?case by simp
next
  case (Cons v vs)
  show ?case
  proof (cases "test v")
    case True
    then show ?thesis by (simp add: maxSatisfyingLoop_Some_Max)
  next
    case False
    with Cons.IH show ?thesis by simp
  qed
qed

lemma maxSatisfying_supported:
  "maxSatisfying E (supportedVersions E) rng = maxSupported E rng"
  by (auto simp: maxSatisfying_def maxSupported_def maxSatisfyingLoop_None filter_empty_conv)

lemma versionExpressionsLoop_maxima:
  "\<forall>ve \<in> set ves. \<not> isTerminal ve \<Longrightarrow>
   versionExpressionsLoop E ves acc = Inr (acc @ expressionMaxima E ves)"
  by (induction ves arbitrary: acc)
    (auto simp: expressionMaxima_def maxSatisfying_supported Let_def
      split: option.splits)

lemma matchesLoop_maxima:
  "\<forall>m \<in> set ms. \<forall>ve \<in> set (children m). \<not> isTerminal ve \<Longrightarrow>
   matchesLoop E ms acc = Inr (acc @ expressionMaxima E (concat (map children ms)))"
proof (induction ms arbitrary: acc)
  case Nil
  show ?case by (simp add: expressionMaxima_def)
next
  case (Cons m ms)
  then show ?case
    by (simp add: versionExpressionsLoop_maxima expressionMaxima_def map_filter_def)
qed

text \<open>
  C9. Where every child of a constraint set is a nonterminal, as the helper asserts, and
  every version satisfies the range \<open>*\<close>, the version inference helper returns the
  greatest of the per-expression maxima, each the greatest supported version that satisfies
  one constraint expression of the document, and returns nothing when there is no such
  maximum: no expression was found, or none is satisfied by a supported version.
\<close>

theorem highest_supported_pragma_version:
  assumes "supportedVersions E \<noteq> []"
    and "\<forall>v. satisfies E v ''*''"
    and "\<forall>ve \<in> set (versionExpressions E). \<not> isTerminal ve"
  shows "getHighestSupportedPragmaVersion E
         = Inr (overallMaximum (expressionMaxima E (versionExpressions E)))"
proof -
  let ?ms = "queryVersionExpressionSets (createTreeCursor
       (tree (parse E (last (supportedVersions E)) SourceUnit (getText E))))"
  from assms(3) have "\<forall>m \<in> set ?ms. \<forall>ve \<in> set (children m). \<not> isTerminal ve"
    by (auto simp: versionExpressions_def)
  then have "matchesLoop E ?ms [] = Inr (expressionMaxima E (versionExpressions E))"
    by (simp add: matchesLoop_maxima versionExpressions_def)
  moreover have "maxSatisfying E xs ''*'' = overallMaximum xs" for xs
  proof -
    have "filter (\<lambda>v. satisfies E v ''*'') xs = xs"
      by (rule filter_True) (simp add: assms(2))
    then show ?thesis
      by (simp add: maxSatisfying_def maxSatisfyingLoop_None overallMaximum_def)
  qed
  ultimately show ?thesis using assms(1)
    by (simp add: getHighestSupportedPragmaVersion_def Let_def)
qed

theorem highest_supported_pragma_version_witness:
  "getHighestSupportedPragmaVersion pragmaEnv = Inr (Some (0, 8, 21))
   \<and> expressionMaxima pragmaEnv (versionExpressions pragmaEnv) = [(0, 8, 21), (0, 8, 19)]"
proof -
  have h1: "supportedVersions pragmaEnv \<noteq> []"
    by (simp add: pragmaEnv_def)
  have h2: "\<forall>v. satisfies pragmaEnv v ''*''"
    by (simp add: pragmaEnv_def)
  have h3: "\<forall>ve \<in> set (versionExpressions pragmaEnv). \<not> isTerminal ve"
    by code_simp
  have m: "expressionMaxima pragmaEnv (versionExpressions pragmaEnv) = [(0, 8, 21), (0, 8, 19)]"
    by code_simp
  from highest_supported_pragma_version [OF h1 h2 h3] m show ?thesis
    by (simp add: overallMaximum_def)
qed

end
